theory Spec2Isabelle
  imports Main
begin

section \<open>Python values, strings and errors\<close>

text \<open>
  The program is a single Python script, \<^verbatim>\<open>paper.py\<close>. Python strings are modelled as
  \<open>string\<close> (lists of 8-bit characters); only ASCII whitespace, digits and letters are
  interpreted, as the script's own literals and its regular expression do. Exceptions are
  values of the type \<open>error\<close>; a computation that may raise returns \<open>error + 'a\<close> with
  \<open>Inl\<close> for the exception. \<open>Unmodelled\<close> is not a Python exception: it marks an input
  outside the fragment of a library function that this development covers.
\<close>

datatype error =
    ValueError
  | NameError
  | TypeError
  | AttributeError
  | KeyError
  | IndexError
  | EOFError
  | FileNotFoundError
  | HTTPError
  | URLError
  | OtherError string
  | Unmodelled

definition is_digit :: "char \<Rightarrow> bool" where
  "is_digit c = (48 \<le> (of_char c :: nat) \<and> (of_char c :: nat) \<le> 57)"

definition is_lower :: "char \<Rightarrow> bool" where
  "is_lower c = (97 \<le> (of_char c :: nat) \<and> (of_char c :: nat) \<le> 122)"

definition is_upper :: "char \<Rightarrow> bool" where
  "is_upper c = (65 \<le> (of_char c :: nat) \<and> (of_char c :: nat) \<le> 90)"

text \<open>The whitespace that \<^verbatim>\<open>int()\<close> strips from an ASCII string: tab, newline, vertical tab,
  form feed, carriage return and space.\<close>

definition is_space :: "char \<Rightarrow> bool" where
  "is_space c = ((9 \<le> (of_char c :: nat) \<and> (of_char c :: nat) \<le> 13) \<or> c = CHR '' '')"

definition digit_val :: "char \<Rightarrow> nat" where
  "digit_val c = of_char c - 48"

definition digit_char :: "nat \<Rightarrow> char" where
  "digit_char d = char_of (48 + d)"

text \<open>\<^verbatim>\<open>str(n)\<close> and \<^verbatim>\<open>f"{n}"\<close> for a non-negative integer.\<close>

fun str_nat :: "nat \<Rightarrow> string" where
  "str_nat n = (if n < 10 then [digit_char n] else str_nat (n div 10) @ [digit_char (n mod 10)])"

declare str_nat.simps [simp del]

text \<open>\<^verbatim>\<open>s.lower()\<close> on ASCII.\<close>

definition lower_char :: "char \<Rightarrow> char" where
  "lower_char c = (if is_upper c then char_of ((of_char c :: nat) + 32) else c)"

definition lower :: "string \<Rightarrow> string" where
  "lower s = map lower_char s"

text \<open>\<^verbatim>\<open>s.split(sep)\<close> for a one-character separator: the result is never empty.\<close>

fun str_split :: "char \<Rightarrow> string \<Rightarrow> string list" where
  "str_split sep [] = [[]]"
| "str_split sep (c # cs) =
     (if c = sep then [] # str_split sep cs
      else (case str_split sep cs of
              [] \<Rightarrow> [[c]]
            | w # ws \<Rightarrow> (c # w) # ws))"

text \<open>\<^verbatim>\<open>sep.join(parts)\<close>.\<close>

fun str_join :: "string \<Rightarrow> string list \<Rightarrow> string" where
  "str_join sep [] = []"
| "str_join sep [p] = p"
| "str_join sep (p # q # ps) = p @ sep @ str_join sep (q # ps)"

text \<open>\<^verbatim>\<open>needle in haystack\<close> for strings: a contiguous occurrence.\<close>

fun is_prefix :: "string \<Rightarrow> string \<Rightarrow> bool" where
  "is_prefix [] ys = True"
| "is_prefix (x # xs) [] = False"
| "is_prefix (x # xs) (y # ys) = (x = y \<and> is_prefix xs ys)"

fun str_in :: "string \<Rightarrow> string \<Rightarrow> bool" where
  "str_in needle [] = (needle = [])"
| "str_in needle (c # cs) = (is_prefix needle (c # cs) \<or> str_in needle cs)"

subsection \<open>\<^verbatim>\<open>int(s)\<close> on a string\<close>

text \<open>
  \<^verbatim>\<open>int(s)\<close> strips surrounding whitespace, accepts one optional sign and then decimal
  digits, where single underscores may separate digits. Anything else raises
  \<^verbatim>\<open>ValueError\<close>, and so does (CPython 3.11, default setting) a literal of more than 4300
  digits.
\<close>

definition py_strip :: "string \<Rightarrow> string" where
  "py_strip s = rev (dropWhile is_space (rev (dropWhile is_space s)))"

fun py_digits :: "bool \<Rightarrow> string \<Rightarrow> nat list option" where
  "py_digits need [] = (if need then None else Some [])"
| "py_digits need (c # cs) =
     (if is_digit c then map_option ((#) (digit_val c)) (py_digits False cs)
      else if c = CHR ''_'' \<and> \<not> need then py_digits True cs
      else None)"

definition int_max_str_digits :: nat where
  "int_max_str_digits = 4300"

definition digits_to_nat :: "nat list \<Rightarrow> nat" where
  "digits_to_nat ds = foldl (\<lambda>a d. 10 * a + d) 0 ds"

definition py_unsigned :: "string \<Rightarrow> error + nat" where
  "py_unsigned body =
     (case py_digits True body of
        None \<Rightarrow> Inl ValueError
      | Some ds \<Rightarrow>
          if length ds > int_max_str_digits then Inl ValueError
          else Inr (digits_to_nat ds))"

definition py_int :: "string \<Rightarrow> error + int" where
  "py_int s =
     (case py_strip s of
        [] \<Rightarrow> Inl ValueError
      | c # cs \<Rightarrow>
          if c = CHR ''-'' then map_sum id (\<lambda>n. - int n) (py_unsigned cs)
          else if c = CHR ''+'' then map_sum id int (py_unsigned cs)
          else map_sum id int (py_unsigned (c # cs)))"

section \<open>Range specifications: \<^verbatim>\<open>in_range\<close>\<close>

text \<open>
  \<^verbatim>\<open>in_range(num, range_str)\<close> walks the comma-separated terms from left to right and
  returns at the first term that matches. A term containing \<^verbatim>\<open>-\<close> is unpacked into
  exactly two parts (any other number of parts raises \<^verbatim>\<open>ValueError\<close>); the conjunction
  \<^verbatim>\<open>num >= int(start) and num <= int(end)\<close> evaluates \<^verbatim>\<open>int(end)\<close> only when the first
  comparison holds. The variable \<open>stop\<close> is the script's \<^verbatim>\<open>end\<close>.
\<close>

fun in_range_terms :: "int \<Rightarrow> string list \<Rightarrow> error + bool" where
  "in_range_terms num [] = Inr False"
| "in_range_terms num (r # rs) =
     (if CHR ''-'' \<in> set r then
        (case str_split CHR ''-'' r of
           [start, stop] \<Rightarrow>
             (case py_int start of
                Inl e \<Rightarrow> Inl e
              | Inr lo \<Rightarrow>
                  if num \<ge> lo then
                    (case py_int stop of
                       Inl e \<Rightarrow> Inl e
                     | Inr hi \<Rightarrow> if num \<le> hi then Inr True else in_range_terms num rs)
                  else in_range_terms num rs)
         | _ \<Rightarrow> Inl ValueError)
      else
        (case py_int r of
           Inl e \<Rightarrow> Inl e
         | Inr k \<Rightarrow> if num = k then Inr True else in_range_terms num rs))"

definition in_range :: "int \<Rightarrow> string \<Rightarrow> error + bool" where
  "in_range num range_str = in_range_terms num (str_split CHR '','' range_str)"

section \<open>Slugs: \<^verbatim>\<open>slugify\<close>\<close>

text \<open>
  \<^verbatim>\<open>re.sub("[^0-9a-zA-Z_]+", "_", s)\<close>: scanning from the left, every match of the greedy
  pattern (a character outside the class together with all characters outside the class
  that follow it) is replaced by one underscore.
\<close>

definition is_word :: "char \<Rightarrow> bool" where
  "is_word c = (is_digit c \<or> is_lower c \<or> is_upper c \<or> c = CHR ''_'')"

function slugify :: "string \<Rightarrow> string" where
  "slugify [] = []"
| "slugify (c # cs) =
     (if is_word c then c # slugify cs
      else CHR ''_'' # slugify (dropWhile (\<lambda>d. \<not> is_word d) cs))"
  by pat_completeness auto
termination
  by (relation "measure length") (auto simp: less_Suc_eq_le length_dropWhile_le)

section \<open>Filename templates: \<^verbatim>\<open>str.format\<close> with keyword arguments\<close>

text \<open>
  \<^verbatim>\<open>template.format(**kw)\<close> is called with keyword arguments only. The template is read
  from the left: \<^verbatim>\<open>{{\<close> and \<^verbatim>\<open>}}\<close> are literal braces, a lone \<^verbatim>\<open>}\<close>, a lone final
  \<^verbatim>\<open>{\<close>, a \<^verbatim>\<open>{\<close> inside a field name and a field that is not closed raise
  \<^verbatim>\<open>ValueError\<close>. A replacement field \<^verbatim>\<open>{name}\<close> is looked up when its closing brace is
  reached: an empty or numeric name refers to a positional argument, of which there is
  none (\<^verbatim>\<open>IndexError\<close>); an unknown name raises \<^verbatim>\<open>KeyError\<close>. The second argument of
  \<open>format_from\<close> is \<open>None\<close> in literal text and \<open>Some name\<close> inside a field whose name
  has been read up to \<open>name\<close>. Fields with a conversion (\<^verbatim>\<open>!\<close>), a format
  specification (\<^verbatim>\<open>:\<close>), an attribute (\<^verbatim>\<open>.\<close>) or an index (\<^verbatim>\<open>[\<close>), and numeric names
  of more than 18 digits, are outside the modelled fragment.
\<close>

definition prepend :: "string \<Rightarrow> error + string \<Rightarrow> error + string" where
  "prepend p r = (case r of Inl e \<Rightarrow> Inl e | Inr t \<Rightarrow> Inr (p @ t))"

definition field_value :: "(string \<times> string) list \<Rightarrow> string \<Rightarrow> error + string" where
  "field_value kw name =
     (if name = [] then Inl IndexError
      else if list_all is_digit name then
        (if length name \<le> 18 then Inl IndexError else Inl Unmodelled)
      else (case map_of kw name of None \<Rightarrow> Inl KeyError | Some v \<Rightarrow> Inr v))"

fun format_from :: "(string \<times> string) list \<Rightarrow> string option \<Rightarrow> string \<Rightarrow> error + string" where
  "format_from kw None [] = Inr []"
| "format_from kw None (c # cs) =
     (if c = CHR 0x7B then
        (case cs of
           [] \<Rightarrow> Inl ValueError
         | d # ds \<Rightarrow>
             if d = CHR 0x7B then prepend [c] (format_from kw None ds)
             else format_from kw (Some []) cs)
      else if c = CHR 0x7D then
        (case cs of
           [] \<Rightarrow> Inl ValueError
         | d # ds \<Rightarrow>
             if d = CHR 0x7D then prepend [c] (format_from kw None ds)
             else Inl ValueError)
      else prepend [c] (format_from kw None cs))"
| "format_from kw (Some name) [] = Inl ValueError"
| "format_from kw (Some name) (c # cs) =
     (if c = CHR 0x7B then Inl ValueError
      else if c = CHR 0x7D then
        (case field_value kw name of
           Inl e \<Rightarrow> Inl e
         | Inr v \<Rightarrow> prepend v (format_from kw None cs))
      else if c \<in> set ''!:.['' then Inl Unmodelled
      else format_from kw (Some (name @ [c])) cs)"

definition py_format :: "string \<Rightarrow> (string \<times> string) list \<Rightarrow> error + string" where
  "py_format template kw = format_from kw None template"

section \<open>The feed, the command line and the outside world\<close>

text \<open>An element of the parsed feed (\<^verbatim>\<open>xml.etree.ElementTree\<close>): tag, text (\<open>etext\<close>, where \<open>None\<close> is
  Python's \<^verbatim>\<open>None\<close>), attributes and children in document order.\<close>

datatype element =
  Element (tag: string) (etext: "string option")
          (attrib: "(string \<times> string) list") (children: "element list")

definition get_attr :: "element \<Rightarrow> string \<Rightarrow> string option" where
  "get_attr e k = map_of (attrib e) k"

text \<open>The parsed command line (\<^verbatim>\<open>args\<close>). \<^verbatim>\<open>--start\<close> and \<^verbatim>\<open>--max-results\<close> are checked
  by \<^verbatim>\<open>nonnegative_int\<close> and so are natural numbers; the three range options default to
  \<^verbatim>\<open>None\<close>.\<close>

record args =
  search_query :: string
  id_list :: string
  start :: nat
  max_results :: nat
  sort_by :: string
  sort_order :: string
  publish_years :: "string option"
  update_years :: "string option"
  download :: bool
  output_filename_template :: string
  output_dir :: string
  download_selection :: "string option"
  remove_non_pdf :: bool
  keep_non_pdf :: bool

text \<open>Truth value of an optional string: \<^verbatim>\<open>None\<close> and the empty string are false.\<close>

definition truthy :: "string option \<Rightarrow> bool" where
  "truthy v = (case v of None \<Rightarrow> False | Some s \<Rightarrow> s \<noteq> [])"

text \<open>
  Library calls whose results the script does not determine are parameters, collected in
  a record:
  \<^item> \<open>urlquote\<close> is \<^verbatim>\<open>urllib.parse.quote\<close>;
  \<^item> \<open>fetch_feed url\<close> is \<^verbatim>\<open>urlopen(url)\<close>, \<^verbatim>\<open>read\<close>, \<^verbatim>\<open>decode\<close> and
    \<^verbatim>\<open>ET.fromstring\<close>: the root element, or the exception one of them raises;
  \<^item> \<open>strptime t\<close> is \<^verbatim>\<open>datetime.strptime(t, in_format)\<close> followed by the two
    \<^verbatim>\<open>strftime\<close> calls: the pair of the time in \<^verbatim>\<open>out_format\<close> and the year (\<^verbatim>\<open>%Y\<close>), or
    the exception;
  \<^item> \<open>urlretrieve k link\<close> is the outcome of the \<open>k\<close>-th call (counted from 0) of
    \<^verbatim>\<open>urllib.request.urlretrieve\<close> in the run, for the URL \<open>link\<close>: the bytes written to
    the local file, or the exception raised.
\<close>

datatype fetch_outcome = Fetched string | FetchRaises error

record world =
  urlquote :: "string \<Rightarrow> string"
  fetch_feed :: "string \<Rightarrow> error + element"
  strptime :: "string \<Rightarrow> error + (string \<times> string)"
  urlretrieve :: "nat \<Rightarrow> string \<Rightarrow> fetch_outcome"

text \<open>What the run does to its environment, in order. \<open>PrintNumbering\<close> stands for
  the two lines that head an entry (\<^verbatim>\<open>print(numbering)\<close> and the dashes under it),
  \<open>PrintEntry\<close> and \<open>PrintLinks\<close> for the two blocks printed for an entry, with the
  values that are interpolated.\<close>

datatype event =
    Urlopen string
  | Print string
  | PrintNumbering string
  | PrintErr string
  | PrintEntry string "string option list" "string option" string string string
  | PrintLinks "string list" "string list"
  | Urlretrieve string string
  | Traceback
  | OpenRead string
  | Remove string
  | Prompt string

text \<open>The mutable environment: the files by path, the lines still to be read from
  standard input, the events so far and the number of \<^verbatim>\<open>urlretrieve\<close> calls so far.\<close>

record state =
  files :: "string \<rightharpoonup> string"
  stdin :: "string list"
  trace :: "event list"
  fetches :: nat

definition emit :: "event \<Rightarrow> state \<Rightarrow> state" where
  "emit e s = s\<lparr>trace := trace s @ [e]\<rparr>"

section \<open>Validating a downloaded file: \<^verbatim>\<open>validate_pdf\<close>\<close>

definition YES :: "string list" where
  "YES = ['''', ''y'', ''yes'']"

definition NO :: "string list" where
  "NO = [''n'', ''no'']"

definition NONPDF :: "string \<Rightarrow> string" where
  "NONPDF file_path = ''downloaded file '' @ file_path @ '' is not a pdf; remove file? (y/n): ''"

definition USAGE :: string where
  "USAGE = ''valid choices are '' @ [CHR 0x27] @ ''y'' @ [CHR 0x27] @ '' and ''
             @ [CHR 0x27] @ ''n'' @ [CHR 0x27]"

definition DOWNLOAD_FAIL_MESSAGE :: string where
  "DOWNLOAD_FAIL_MESSAGE =
     [CHR 0x0A] @ ''failed to download file; it is possible that the article was withdrawn''
     @ [CHR 0x0A]"

text \<open>\<^verbatim>\<open>os.remove\<close>: raises when the file does not exist.\<close>

definition remove_file :: "string \<Rightarrow> state \<Rightarrow> (error + unit) \<times> state" where
  "remove_file file_path s =
     (case files s file_path of
        None \<Rightarrow> (Inl FileNotFoundError, s)
      | Some _ \<Rightarrow> (Inr (), emit (Remove file_path) (s\<lparr>files := (files s)(file_path := None)\<rparr>)))"

text \<open>
  The prompt loop \<^verbatim>\<open>while not ok\<close>. The second argument is the input still to be read;
  \<^verbatim>\<open>input(prompt)\<close> shows the prompt, then takes the next line or raises \<^verbatim>\<open>EOFError\<close>
  when there is none. One iteration consumes one line, so the loop is a recursion on the
  remaining input; it has no bound on the number of iterations of its own.
\<close>

fun prompt_loop :: "string \<Rightarrow> string list \<Rightarrow> state \<Rightarrow> (error + unit) \<times> state" where
  "prompt_loop file_path [] s =
     (Inl EOFError, emit (Prompt (NONPDF file_path)) (s\<lparr>stdin := []\<rparr>))"
| "prompt_loop file_path (line # rest) s =
     (let s1 = emit (Prompt (NONPDF file_path)) (s\<lparr>stdin := rest\<rparr>);
          choice = lower line
      in if choice \<in> set YES then
           (case remove_file file_path s1 of
              (Inl e, s2) \<Rightarrow> (Inl e, s2)
            | (Inr _, s2) \<Rightarrow> (Inr (), emit (Print []) s2))
         else if choice \<in> set NO then (Inr (), emit (Print []) s1)
         else prompt_loop file_path rest (emit (Print []) (emit (PrintErr USAGE) s1)))"

definition validate_pdf :: "string \<Rightarrow> bool \<Rightarrow> bool \<Rightarrow> state \<Rightarrow> (error + unit) \<times> state" where
  "validate_pdf file_path keep remove s =
     (if keep then (Inr (), s)
      else
        (let s1 = emit (OpenRead file_path) s
         in case files s1 file_path of
              None \<Rightarrow> (Inl FileNotFoundError, s1)
            | Some content \<Rightarrow>
                if take 4 content = ''%PDF'' then (Inr (), s1)
                else if remove then remove_file file_path s1
                else prompt_loop file_path (stdin s1) s1))"

section \<open>Downloading the links of one entry\<close>

text \<open>
  The loop \<^verbatim>\<open>for link in pdf_links\<close> with its counter \<^verbatim>\<open>excess_index\<close>. Only
  \<^verbatim>\<open>urllib.error.HTTPError\<close> is caught; any other exception of \<^verbatim>\<open>urlretrieve\<close>, and any
  exception of \<^verbatim>\<open>validate_pdf\<close>, leaves the loop and ends the run.
\<close>

definition local_path :: "args \<Rightarrow> string \<Rightarrow> nat \<Rightarrow> string" where
  "local_path a slug excess_index =
     (if excess_index > 1
      then output_dir a @ ''/'' @ slug @ ''--'' @ str_nat excess_index @ ''.pdf''
      else output_dir a @ ''/'' @ slug @ ''.pdf'')"

fun download_links ::
  "args \<Rightarrow> world \<Rightarrow> string \<Rightarrow> string list \<Rightarrow> nat \<Rightarrow> state \<Rightarrow> (error + unit) \<times> state" where
  "download_links a w slug [] excess_index s = (Inr (), s)"
| "download_links a w slug (link # links) excess_index s =
     (let local_file_path = local_path a slug excess_index;
          s1 = emit (Urlretrieve link local_file_path) (s\<lparr>fetches := Suc (fetches s)\<rparr>)
      in case urlretrieve w (fetches s) link of
           FetchRaises e \<Rightarrow>
             if e = HTTPError then
               download_links a w slug links (Suc excess_index)
                 (emit (PrintErr DOWNLOAD_FAIL_MESSAGE) (emit Traceback s1))
             else (Inl e, s1)
         | Fetched content \<Rightarrow>
             (case validate_pdf local_file_path (keep_non_pdf a) (remove_non_pdf a)
                     (s1\<lparr>files := (files s1)(local_file_path \<mapsto> content)\<rparr>) of
                (Inl e, s2) \<Rightarrow> (Inl e, s2)
              | (Inr _, s2) \<Rightarrow> download_links a w slug links (Suc excess_index) s2))"

section \<open>The main loop over the feed entries\<close>

text \<open>
  The variables of the script that live across iterations of \<^verbatim>\<open>for entry in entry_list\<close>.
  \<^verbatim>\<open>entry_index\<close> is initialised before the loop; the others are assigned only inside
  the loop over an entry's children, so each is \<open>None\<close> while unbound (reading it raises
  \<^verbatim>\<open>NameError\<close>). \<open>id_var\<close> is the script's \<^verbatim>\<open>id_\<close>; \<^verbatim>\<open>title\<close> may be bound to Python's
  \<^verbatim>\<open>None\<close>, which is \<open>Some None\<close>.
\<close>

record vars =
  entry_index :: nat
  id_var :: "string option"
  title :: "string option option"
  publish_time :: "string option"
  publish_year :: "string option"
  update_time :: "string option"
  update_year :: "string option"

definition initial_vars :: vars where
  "initial_vars =
     \<lparr>entry_index = 0, id_var = None, title = None, publish_time = None,
      publish_year = None, update_time = None, update_year = None\<rparr>"

text \<open>One iteration of \<^verbatim>\<open>for child in entry\<close>: the \<^verbatim>\<open>if\<close>/\<^verbatim>\<open>elif\<close> chain on the child's tag.
  The accumulator holds the variables, \<^verbatim>\<open>link_elements\<close> and \<^verbatim>\<open>authors\<close>.\<close>

definition scan_child ::
  "world \<Rightarrow> element \<Rightarrow> vars \<times> element list \<times> string option list
     \<Rightarrow> error + vars \<times> element list \<times> string option list" where
  "scan_child w child acc =
     (case acc of (v, link_elements, authors) \<Rightarrow>
        if str_in ''id'' (tag child) then
          (case etext child of
             None \<Rightarrow> Inl AttributeError
           | Some t \<Rightarrow> Inr (v\<lparr>id_var := Some (last (str_split CHR ''/'' t))\<rparr>, link_elements, authors))
        else if str_in ''title'' (tag child) then
          Inr (v\<lparr>title := Some (etext child)\<rparr>, link_elements, authors)
        else if str_in ''link'' (tag child) then
          Inr (v, link_elements @ [child], authors)
        else if str_in ''author'' (tag child) then
          Inr (v, link_elements,
               authors @ map etext (filter (\<lambda>gchild. str_in ''name'' (tag gchild)) (children child)))
        else if str_in ''published'' (tag child) then
          (case etext child of
             None \<Rightarrow> Inl TypeError
           | Some t \<Rightarrow>
               (case strptime w t of
                  Inl e \<Rightarrow> Inl e
                | Inr (tm, yr) \<Rightarrow>
                    Inr (v\<lparr>publish_time := Some tm, publish_year := Some yr\<rparr>, link_elements, authors)))
        else if str_in ''updated'' (tag child) then
          (case etext child of
             None \<Rightarrow> Inl TypeError
           | Some t \<Rightarrow>
               (case strptime w t of
                  Inl e \<Rightarrow> Inl e
                | Inr (tm, yr) \<Rightarrow>
                    Inr (v\<lparr>update_time := Some tm, update_year := Some yr\<rparr>, link_elements, authors)))
        else Inr acc)"

fun scan_children ::
  "world \<Rightarrow> element list \<Rightarrow> vars \<times> element list \<times> string option list
     \<Rightarrow> error + vars \<times> element list \<times> string option list" where
  "scan_children w [] acc = Inr acc"
| "scan_children w (child # rest) acc =
     (case scan_child w child acc of
        Inl e \<Rightarrow> Inl e
      | Inr acc' \<Rightarrow> scan_children w rest acc')"

text \<open>
  A year filter, \<^verbatim>\<open>args.publish_years and not in_range(int(publish_year), args.publish_years)\<close>:
  \<open>Inr True\<close> when the entry is to be skipped. The variable is read only when the option
  is set.
\<close>

definition year_excluded :: "string option \<Rightarrow> string option \<Rightarrow> error + bool" where
  "year_excluded years year_var =
     (case years of
        None \<Rightarrow> Inr False
      | Some range_str \<Rightarrow>
          if range_str = [] then Inr False
          else
            (case year_var of
               None \<Rightarrow> Inl NameError
             | Some y \<Rightarrow>
                 (case py_int y of
                    Inl e \<Rightarrow> Inl e
                  | Inr n \<Rightarrow>
                      (case in_range n range_str of
                         Inl e \<Rightarrow> Inl e
                       | Inr b \<Rightarrow> Inr (\<not> b)))))"

text \<open>\<^verbatim>\<open>[slugify(name) for name in authors]\<close>: \<^verbatim>\<open>re.sub\<close> raises \<^verbatim>\<open>TypeError\<close> on \<^verbatim>\<open>None\<close>.\<close>

fun slugify_all :: "string option list \<Rightarrow> error + string list" where
  "slugify_all [] = Inr []"
| "slugify_all (None # names) = Inl TypeError"
| "slugify_all (Some name # names) =
     (case slugify_all names of
        Inl e \<Rightarrow> Inl e
      | Inr slugs \<Rightarrow> Inr (slugify name # slugs))"

text \<open>The file name of an entry: \<^verbatim>\<open>slugified_title\<close>, \<^verbatim>\<open>slugified_authors\<close> and the call of
  \<^verbatim>\<open>format\<close>, whose arguments are read in the order in which they are written.\<close>

definition render_slug :: "args \<Rightarrow> vars \<Rightarrow> string option list \<Rightarrow> error + string" where
  "render_slug a v authors =
     (case title v of
        None \<Rightarrow> Inl NameError
      | Some None \<Rightarrow> Inl TypeError
      | Some (Some t) \<Rightarrow>
          (case slugify_all authors of
             Inl e \<Rightarrow> Inl e
           | Inr slugs \<Rightarrow>
               (case id_var v of
                  None \<Rightarrow> Inl NameError
                | Some i \<Rightarrow>
                    (case publish_year v of
                       None \<Rightarrow> Inl NameError
                     | Some pub \<Rightarrow>
                         (case update_year v of
                            None \<Rightarrow> Inl NameError
                          | Some updt \<Rightarrow>
                              py_format (output_filename_template a)
                                [(''id'', i), (''auth'', str_join ''-'' slugs),
                                 (''title'', slugify t), (''pub'', pub), (''updt'', updt)])))))"

text \<open>The links of an entry that have a non-empty \<^verbatim>\<open>href\<close>, split into pdf links and
  others.\<close>

definition has_href :: "element \<Rightarrow> bool" where
  "has_href link_elt = truthy (get_attr link_elt ''href'')"

definition is_pdf_link :: "element \<Rightarrow> bool" where
  "is_pdf_link link_elt =
     (get_attr link_elt ''title'' = Some ''pdf''
      \<or> get_attr link_elt ''type'' = Some ''application/pdf'')"

definition href :: "element \<Rightarrow> string" where
  "href link_elt = (case get_attr link_elt ''href'' of None \<Rightarrow> [] | Some h \<Rightarrow> h)"

definition pdf_links_of :: "element list \<Rightarrow> string list" where
  "pdf_links_of link_elements =
     map href (filter (\<lambda>l. has_href l \<and> is_pdf_link l) link_elements)"

definition other_links_of :: "element list \<Rightarrow> string list" where
  "other_links_of link_elements =
     map href (filter (\<lambda>l. has_href l \<and> \<not> is_pdf_link l) link_elements)"

text \<open>The download condition \<^verbatim>\<open>args.download and (not args.download_selection or
  in_range(entry_index, args.download_selection))\<close>.\<close>

definition selected :: "args \<Rightarrow> nat \<Rightarrow> error + bool" where
  "selected a idx =
     (if download a then
        (case download_selection a of
           None \<Rightarrow> Inr True
         | Some range_str \<Rightarrow>
             if range_str = [] then Inr True else in_range (int idx) range_str)
      else Inr False)"

text \<open>
  One iteration of \<^verbatim>\<open>for entry in entry_list\<close>, in two parts. \<open>show_entry\<close> is the
  part of the loop body after the two year filters: the entry is numbered, its file name
  is rendered, it is printed and, if selected, its pdf links are downloaded. The values
  of \<open>PrintEntry\<close> are the identifier, the authors, the title, the two times and the file
  name. \<open>process_entry\<close> is the whole body: the loop over the children, the two
  filters (each a \<^verbatim>\<open>continue\<close>), then \<open>show_entry\<close>.
\<close>

definition show_entry ::
  "args \<Rightarrow> world \<Rightarrow> vars \<Rightarrow> element list \<Rightarrow> string option list \<Rightarrow> state
     \<Rightarrow> (error + vars) \<times> state" where
  "show_entry a w v1 link_elements authors s =
     (let v2 = v1\<lparr>entry_index := entry_index v1 + 1\<rparr>;
          numbering = str_nat (entry_index v2);
          s1 = emit (PrintNumbering numbering) s
      in case render_slug a v2 authors of
           Inl e \<Rightarrow> (Inl e, s1)
         | Inr slug \<Rightarrow>
             (case (id_var v2, title v2, publish_time v2, update_time v2) of
                (Some i, Some t, Some ptime, Some utime) \<Rightarrow>
                  (let pdf_links = pdf_links_of link_elements;
                       other_links = other_links_of link_elements;
                       s2 = emit (PrintLinks pdf_links other_links)
                              (emit (PrintEntry i authors t ptime utime slug) s1)
                   in case selected a (entry_index v2) of
                        Inl e \<Rightarrow> (Inl e, s2)
                      | Inr False \<Rightarrow> (Inr v2, s2)
                      | Inr True \<Rightarrow>
                          (case download_links a w slug pdf_links 1 s2 of
                             (Inl e, s3) \<Rightarrow> (Inl e, s3)
                           | (Inr _, s3) \<Rightarrow> (Inr v2, s3)))
              | _ \<Rightarrow> (Inl NameError, s1)))"

definition process_entry ::
  "args \<Rightarrow> world \<Rightarrow> element \<Rightarrow> vars \<Rightarrow> state \<Rightarrow> (error + vars) \<times> state" where
  "process_entry a w entry v s =
     (case scan_children w (children entry) (v, [], []) of
        Inl e \<Rightarrow> (Inl e, s)
      | Inr (v1, link_elements, authors) \<Rightarrow>
          (case year_excluded (publish_years a) (publish_year v1) of
             Inl e \<Rightarrow> (Inl e, s)
           | Inr True \<Rightarrow> (Inr v1, s)
           | Inr False \<Rightarrow>
               (case year_excluded (update_years a) (update_year v1) of
                  Inl e \<Rightarrow> (Inl e, s)
                | Inr True \<Rightarrow> (Inr v1, s)
                | Inr False \<Rightarrow> show_entry a w v1 link_elements authors s)))"

fun process_entries ::
  "args \<Rightarrow> world \<Rightarrow> element list \<Rightarrow> vars \<Rightarrow> state \<Rightarrow> (error + vars) \<times> state" where
  "process_entries a w [] v s = (Inr v, s)"
| "process_entries a w (entry # rest) v s =
     (case process_entry a w entry v s of
        (Inl e, s') \<Rightarrow> (Inl e, s')
      | (Inr v', s') \<Rightarrow> process_entries a w rest v' s')"

section \<open>The script\<close>

definition URL_PREFIX :: string where
  "URL_PREFIX = ''http://export.arxiv.org/api/query?''"

definition query_url :: "args \<Rightarrow> world \<Rightarrow> string" where
  "query_url a w =
     URL_PREFIX @ ''search_query='' @ urlquote w (search_query a)
     @ ''&id_list='' @ id_list a
     @ ''&start='' @ str_nat (start a)
     @ ''&max_results='' @ str_nat (max_results a)
     @ ''&sortBy='' @ sort_by a
     @ ''&sortOrder='' @ sort_order a"

definition entry_list :: "element \<Rightarrow> element list" where
  "entry_list root = filter (\<lambda>child. str_in ''entry'' (tag child)) (children root)"

text \<open>
  The script after \<^verbatim>\<open>parse_args\<close>: the query is sent first; nothing of the command line
  is examined before that except to build the URL.
\<close>

definition main :: "args \<Rightarrow> world \<Rightarrow> state \<Rightarrow> (error + vars) \<times> state" where
  "main a w s =
     (let url = query_url a w;
          s1 = emit (Urlopen url) s
      in case fetch_feed w url of
           Inl e \<Rightarrow> (Inl e, s1)
         | Inr root \<Rightarrow> process_entries a w (entry_list root) initial_vars s1)"

section \<open>The vocabulary of the specification\<close>

subsection \<open>Range specifications\<close>

text \<open>
  The specification describes a range specification as a sequence of terms, each a single
  integer or an inclusive interval, obtained by a \<open>parse\<close> that fails unless every
  comma-separated term is \<^verbatim>\<open><integer>\<close> or \<^verbatim>\<open><integer>-<integer>\<close>, and a membership test
  \<open>contains\<close>. The script has no such data type: these definitions follow the
  specification and are compared with \<open>in_range\<close> below. An integer is what \<^verbatim>\<open>int()\<close>
  accepts.
\<close>

datatype range_term = Single int | Interval int int

definition parse_term :: "string \<Rightarrow> range_term option" where
  "parse_term r =
     (if CHR ''-'' \<in> set r then
        (case str_split CHR ''-'' r of
           [lo, hi] \<Rightarrow>
             (case (py_int lo, py_int hi) of
                (Inr l, Inr h) \<Rightarrow> Some (Interval l h)
              | _ \<Rightarrow> None)
         | _ \<Rightarrow> None)
      else (case py_int r of Inr k \<Rightarrow> Some (Single k) | Inl _ \<Rightarrow> None))"

fun parse_terms :: "string list \<Rightarrow> range_term list option" where
  "parse_terms [] = Some []"
| "parse_terms (r # rs) =
     (case parse_term r of
        None \<Rightarrow> None
      | Some t \<Rightarrow> map_option ((#) t) (parse_terms rs))"

definition parse :: "string \<Rightarrow> range_term list option" where
  "parse spec = parse_terms (str_split CHR '','' spec)"

fun term_contains :: "range_term \<Rightarrow> int \<Rightarrow> bool" where
  "term_contains (Single k) n = (n = k)"
| "term_contains (Interval low high) n = (low \<le> n \<and> n \<le> high)"

definition contains :: "range_term list \<Rightarrow> int \<Rightarrow> bool" where
  "contains S n = (\<exists>t\<in>set S. term_contains t n)"

subsection \<open>The disposition policy and the operator's answers\<close>

text \<open>
  The specification names the three-way choice for files that are not PDFs; the script
  has the two flags \<^verbatim>\<open>--remove-non-pdf\<close> and \<^verbatim>\<open>--keep-non-pdf\<close> of a mutually exclusive
  group, so at most one of them is set. \<open>first_valid_answer\<close> is the first line of the
  operator's input that, in lower case, is one of the accepted answers;
  \<open>invalid_prefix\<close> are the lines before it.
\<close>

datatype policy = PromptOperator | AutoRemove | AutoKeep

definition keep_flag :: "policy \<Rightarrow> bool" where
  "keep_flag p = (p = AutoKeep)"

definition remove_flag :: "policy \<Rightarrow> bool" where
  "remove_flag p = (p = AutoRemove)"

definition valid_answer :: "string \<Rightarrow> bool" where
  "valid_answer choice = (choice \<in> set YES \<or> choice \<in> set NO)"

definition first_valid_answer :: "string list \<Rightarrow> string option" where
  "first_valid_answer lines = find valid_answer (map lower lines)"

definition invalid_prefix :: "string list \<Rightarrow> string list" where
  "invalid_prefix lines = takeWhile (\<lambda>l. \<not> valid_answer (lower l)) lines"

subsection \<open>Entries that lack an element\<close>


section \<open>Observations on a run\<close>

text \<open>The number of events of a kind in the trace of a state.\<close>

definition count_events :: "(event \<Rightarrow> bool) \<Rightarrow> state \<Rightarrow> nat" where
  "count_events P s = length (filter P (trace s))"

fun is_prompt :: "event \<Rightarrow> bool" where
  "is_prompt (Prompt _) = True"
| "is_prompt _ = False"

text \<open>The download attempts recorded in a trace, in order: the link and the local path
  of every call of \<^verbatim>\<open>urlretrieve\<close>.\<close>

fun retrieved :: "event list \<Rightarrow> (string \<times> string) list" where
  "retrieved [] = []"
| "retrieved (Urlretrieve link file_path # es) = (link, file_path) # retrieved es"
| "retrieved (_ # es) = retrieved es"

text \<open>The download attempts of a loop that fail with \<^verbatim>\<open>HTTPError\<close>, and the loops in
  which no attempt fails with anything else: \<open>k\<close> is the number of the first call.\<close>

fun http_failures :: "world \<Rightarrow> nat \<Rightarrow> string list \<Rightarrow> nat" where
  "http_failures w k [] = 0"
| "http_failures w k (link # links) =
     (if urlretrieve w k link = FetchRaises HTTPError then 1 else 0)
     + http_failures w (Suc k) links"

fun only_http_failures :: "world \<Rightarrow> nat \<Rightarrow> string list \<Rightarrow> bool" where
  "only_http_failures w k [] = True"
| "only_http_failures w k (link # links) =
     ((case urlretrieve w k link of
         Fetched _ \<Rightarrow> True
       | FetchRaises e \<Rightarrow> e = HTTPError)
      \<and> only_http_failures w (Suc k) links)"

text \<open>The display indices printed in a trace, and the pairs of a display index and the
  identifier of the entry printed under it.\<close>

fun numberings :: "event list \<Rightarrow> string list" where
  "numberings [] = []"
| "numberings (PrintNumbering n # es) = n # numberings es"
| "numberings (_ # es) = numberings es"

fun displayed :: "event list \<Rightarrow> (string \<times> string) list" where
  "displayed (PrintNumbering n # PrintEntry i au t pt ut slug # es) = (n, i) # displayed es"
| "displayed (_ # es) = displayed es"
| "displayed [] = []"

text \<open>The events that the download loop of an entry can add to the trace.\<close>

fun download_event :: "event \<Rightarrow> bool" where
  "download_event (Urlopen _) = False"
| "download_event (PrintNumbering _) = False"
| "download_event (PrintEntry _ _ _ _ _ _) = False"
| "download_event (PrintLinks _ _) = False"
| "download_event _ = True"

text \<open>A result of the entry loop that, if it is not an exception, carries the given
  value of \<^verbatim>\<open>entry_index\<close>.\<close>

fun returns_index :: "error + vars \<Rightarrow> nat \<Rightarrow> bool" where
  "returns_index (Inl e) n = True"
| "returns_index (Inr v) n = (entry_index v = n)"

section \<open>Example inputs\<close>

text \<open>Concrete command lines, feeds and environments on which the theorems below are
  instantiated and the script is run step by step.\<close>

text \<open>The default command line (no option given) with a search expression.\<close>

definition ex_args :: args where
  "ex_args = \<lparr>search_query = ''au:ficial_a'', id_list = [], start = 0, max_results = 50,
     sort_by = ''lastUpdatedDate'', sort_order = ''descending'',
     publish_years = None, update_years = None, download = False,
     output_filename_template = ''{pub}-{auth}-{title}-{id}'', output_dir = ''.'',
     download_selection = None, remove_non_pdf = False, keep_non_pdf = False\<rparr>"

text \<open>The state at the start of a run, and a state in which two downloads have been
  stored, the first not a PDF and the second a PDF, and the operator will first give an
  answer that is not accepted and then \<^verbatim>\<open>Y\<close>.\<close>

definition ex_state0 :: state where
  "ex_state0 = \<lparr>files = Map.empty, stdin = [], trace = [], fetches = 0\<rparr>"

definition ex_state :: state where
  "ex_state = \<lparr>files = [''./x.pdf'' \<mapsto> ''<html>withdrawn</html>'', ''./y.pdf'' \<mapsto> ''%PDF-1.5 ...''],
                stdin = [''maybe'', ''Y''], trace = [], fetches = 0\<rparr>"

text \<open>Two environments: in the first every download fails with \<^verbatim>\<open>HTTPError\<close> except the
  second call, which stores a PDF; in the second the first download fails with
  \<^verbatim>\<open>URLError\<close> (the host cannot be reached). Both answer the query with the feed given
  as argument and read a timestamp by taking its first four characters as the year.\<close>

definition ex_world_http :: "element \<Rightarrow> world" where
  "ex_world_http feed =
     \<lparr>urlquote = (\<lambda>q. q), fetch_feed = (\<lambda>url. Inr feed),
      strptime = (\<lambda>t. Inr (t, take 4 t)),
      urlretrieve = (\<lambda>k link. if k = 1 then Fetched ''%PDF-1.5 ...'' else FetchRaises HTTPError)\<rparr>"

definition ex_world_urlerror :: "element \<Rightarrow> world" where
  "ex_world_urlerror feed =
     \<lparr>urlquote = (\<lambda>q. q), fetch_feed = (\<lambda>url. Inr feed),
      strptime = (\<lambda>t. Inr (t, take 4 t)),
      urlretrieve = (\<lambda>k link. if k = 0 then FetchRaises URLError else Fetched ''%PDF-1.5 ...'')\<rparr>"

text \<open>Feeds in the shape of the arXiv API: tags carry the Atom namespace, an entry has
  an identifier, the two timestamps, a title, an author and links.\<close>

definition atom :: "string \<Rightarrow> string" where
  "atom name = ''{http://www.w3.org/2005/Atom}'' @ name"

definition leaf :: "string \<Rightarrow> string \<Rightarrow> element" where
  "leaf name txt = Element (atom name) (Some txt) [] []"

definition pdf_link :: "string \<Rightarrow> element" where
  "pdf_link url =
     Element (atom ''link'') None
       [(''title'', ''pdf''), (''href'', url), (''rel'', ''related''), (''type'', ''application/pdf'')] []"

definition ex_entry :: "string \<Rightarrow> string \<Rightarrow> string \<Rightarrow> element" where
  "ex_entry ident year ttl =
     Element (atom ''entry'') None []
       [leaf ''id'' (''http://arxiv.org/abs/'' @ ident),
        leaf ''updated'' (year @ ''-09-12T17:00:00Z''),
        leaf ''published'' (year @ ''-09-12T17:00:00Z''),
        leaf ''title'' ttl,
        Element (atom ''author'') None [] [leaf ''name'' ''Art I. Ficial''],
        pdf_link (''http://arxiv.org/pdf/'' @ ident)]"

text \<open>Five entries published in 2019, 2020, 2021, 2022 and 2023.\<close>

definition ex_feed5 :: element where
  "ex_feed5 =
     Element (atom ''feed'') None []
       [ex_entry ''1901.00001'' ''2019'' ''One'',
        ex_entry ''2002.00002'' ''2020'' ''Two'',
        ex_entry ''2103.00003'' ''2021'' ''Three'',
        ex_entry ''2204.00004'' ''2022'' ''Four'',
        ex_entry ''2305.00005'' ''2023'' ''Five'']"

text \<open>An entry with two pdf links, followed by an entry with one.\<close>

definition ex_feed_links :: element where
  "ex_feed_links =
     Element (atom ''feed'') None []
       [Element (atom ''entry'') None []
          [leaf ''id'' ''http://arxiv.org/abs/2309.06314'',
           leaf ''updated'' ''2023-09-12T17:00:00Z'',
           leaf ''published'' ''2023-09-12T17:00:00Z'',
           leaf ''title'' ''X'',
           pdf_link ''http://arxiv.org/pdf/2309.06314v1'',
           pdf_link ''http://arxiv.org/pdf/2309.06314v2''],
        ex_entry ''2305.00005'' ''2023'' ''Five'']"







definition ex_feed_empty :: element where
  "ex_feed_empty = Element (atom ''feed'') None [] []"

section \<open>Verified properties\<close>

subsection \<open>Slugs\<close>

lemma is_word_underscore: "is_word (CHR ''_'')"
  by (simp add: is_word_def)

lemma slugify_words: "list_all is_word s \<Longrightarrow> slugify s = s"
  by (induction s) simp_all

lemma slugify_all_words: "list_all is_word (slugify s)"
  by (induction s rule: slugify.induct) (simp_all add: is_word_underscore)

lemma slugify_run:
  assumes "r \<noteq> []" "\<forall>c\<in>set r. \<not> is_word c" "b = [] \<or> is_word (hd b)"
  shows "slugify (r @ b) = CHR ''_'' # slugify b"
proof -
  from assms(1) obtain c r' where r: "r = c # r'" by (cases r) auto
  have "dropWhile (\<lambda>d. \<not> is_word d) (r' @ b) = dropWhile (\<lambda>d. \<not> is_word d) b"
    using assms(2) r by (simp add: dropWhile_append2)
  also have "\<dots> = b"
    using assms(3) by (cases b) auto
  finally show ?thesis
    using assms(2) r by simp
qed

lemma slugify_append:
  "a = [] \<or> is_word (last a) \<Longrightarrow> slugify (a @ t) = slugify a @ slugify t"
proof (induction a rule: slugify.induct)
  case 1
  then show ?case by simp
next
  case (2 c cs)
  show ?case
  proof (cases "is_word c")
    case True
    with 2 show ?thesis by (cases "cs = []") auto
  next
    case False
    with 2(3) have ne: "cs \<noteq> []" and lw: "is_word (last cs)" by (auto split: if_splits)
    then have mem: "last cs \<in> set cs" by simp
    have d: "dropWhile (\<lambda>d. \<not> is_word d) (cs @ t) = dropWhile (\<lambda>d. \<not> is_word d) cs @ t"
      using mem lw by (simp add: dropWhile_append1)
    have l: "last (dropWhile (\<lambda>d. \<not> is_word d) cs) = last cs"
      using mem lw by (simp add: dropWhile_last)
    have n: "dropWhile (\<lambda>d. \<not> is_word d) cs \<noteq> []"
      using mem lw by auto
    from 2(2)[OF False] l lw n d False show ?thesis by simp
  qed
qed

lemma slugify_example: "slugify ''Art I. Ficial!!'' = ''Art_I_Ficial_''"
  by (simp add: is_word_def is_digit_def is_lower_def is_upper_def)

text \<open>
  Claim C9. \<open>slugify\<close> replaces every maximal run of characters other than ASCII
  letters, digits and underscore by one underscore and leaves every other character,
  with its case, as it is: a non-empty run \<open>r\<close> of such characters that is maximal
  (what precedes it is empty or ends with a word character, what follows it is empty or
  starts with one) becomes a single underscore between the slugs of its two sides, and a
  string of word characters is unchanged. \<open>slugify\<close> is idempotent, and
  \<open>slugify "Art I. Ficial!!"\<close> is \<open>"Art_I_Ficial_"\<close>.
\<close>

theorem slugify_collapses_runs_idempotent:
  assumes "r \<noteq> []" and "\<forall>c\<in>set r. \<not> is_word c"
    and "a = [] \<or> is_word (last a)" and "b = [] \<or> is_word (hd b)"
    and "\<forall>c\<in>set w. is_word c"
  shows "slugify (a @ r @ b) = slugify a @ ''_'' @ slugify b
       \<and> slugify w = w
       \<and> slugify (slugify x) = slugify x
       \<and> slugify ''Art I. Ficial!!'' = ''Art_I_Ficial_''"
proof -
  have "slugify (a @ r @ b) = slugify a @ slugify (r @ b)"
    using assms(3) by (rule slugify_append)
  then have 1: "slugify (a @ r @ b) = slugify a @ ''_'' @ slugify b"
    using slugify_run[OF assms(1,2,4)] by simp
  have 2: "slugify w = w" using assms(5) by (simp add: slugify_words list_all_iff)
  have 3: "slugify (slugify x) = slugify x"
    by (rule slugify_words) (rule slugify_all_words)
  from 1 2 3 slugify_example show ?thesis by simp
qed

theorem slugify_collapses_runs_idempotent_witness:
  "slugify (''Art I'' @ ''. '' @ ''Ficial!!'') = slugify ''Art I'' @ ''_'' @ slugify ''Ficial!!''
   \<and> slugify ''Quantum_Stuff'' = ''Quantum_Stuff''
   \<and> slugify (slugify ''a  b'') = slugify ''a  b''
   \<and> slugify ''Art I. Ficial!!'' = ''Art_I_Ficial_''"
proof -
  have h1: "''. '' \<noteq> []" by simp
  have h2: "\<forall>c\<in>set ''. ''. \<not> is_word c"
    by (simp add: is_word_def is_digit_def is_lower_def is_upper_def)
  have h3: "''Art I'' = [] \<or> is_word (last ''Art I'')"
    by (simp add: is_word_def is_digit_def is_lower_def is_upper_def)
  have h4: "''Ficial!!'' = [] \<or> is_word (hd ''Ficial!!'')"
    by (simp add: is_word_def is_digit_def is_lower_def is_upper_def)
  have h5: "\<forall>c\<in>set ''Quantum_Stuff''. is_word c"
    by (simp add: is_word_def is_digit_def is_lower_def is_upper_def)
  show ?thesis by (rule slugify_collapses_runs_idempotent[OF h1 h2 h3 h4 h5])
qed

subsection \<open>Range specifications\<close>

lemma in_range_terms_parsed:
  "parse_terms rs = Some S \<Longrightarrow> in_range_terms n rs = Inr (contains S n)"
proof (induction rs arbitrary: S)
  case Nil
  then show ?case by (simp add: contains_def)
next
  case (Cons r rs)
  from Cons.prems obtain t S' where t: "parse_term r = Some t"
    and S': "parse_terms rs = Some S'" and S: "S = t # S'"
    by (auto split: option.splits)
  have IH: "in_range_terms n rs = Inr (contains S' n)"
    using Cons.IH[OF S'] .
  show ?case
  proof (cases "CHR ''-'' \<in> set r")
    case True
    with t obtain lo hi l h where sp: "str_split CHR ''-'' r = [lo, hi]"
      and l: "py_int lo = Inr l" and h: "py_int hi = Inr h" and tt: "t = Interval l h"
      by (auto simp: parse_term_def split: list.splits sum.splits)
    show ?thesis
      using True sp l h tt S IH by (auto simp: contains_def)
  next
    case False
    with t obtain k where k: "py_int r = Inr k" and tt: "t = Single k"
      by (auto simp: parse_term_def split: sum.splits)
    show ?thesis
      using False k tt S IH by (auto simp: contains_def)
  qed
qed

lemma parse_example: "parse ''3,7-9'' = Some [Single 3, Interval 7 9]"
  by code_simp

text \<open>
  Claim C4. For every range specification \<open>S\<close> (the parse of a configured string) and
  every integer \<open>n\<close>, the membership test of the script, \<open>in_range\<close>, returns true
  if and only if \<open>n\<close> equals some singleton term of \<open>S\<close> or lies within
  \<open>[low, high]\<close> of some interval term, both ends included; and \<open>"3,7-9"\<close> matches
  exactly 3, 7, 8 and 9.
\<close>

theorem in_range_iff_contains:
  assumes "parse range_str = Some S"
  shows "in_range n range_str = Inr (contains S n)
       \<and> (contains S n \<longleftrightarrow>
            (\<exists>t\<in>set S. case t of Single k \<Rightarrow> n = k | Interval low high \<Rightarrow> low \<le> n \<and> n \<le> high))
       \<and> in_range m ''3,7-9'' = Inr (m \<in> {3, 7, 8, 9})"
proof -
  have 1: "in_range n range_str = Inr (contains S n)"
    using assms by (simp add: in_range_def parse_def in_range_terms_parsed)
  have 2: "contains S n \<longleftrightarrow>
      (\<exists>t\<in>set S. case t of Single k \<Rightarrow> n = k | Interval low high \<Rightarrow> low \<le> n \<and> n \<le> high)"
    unfolding contains_def
    by (rule bex_cong[OF refl]) (simp split: range_term.split)
  have "in_range m ''3,7-9'' = Inr (contains [Single 3, Interval 7 9] m)"
    using parse_example by (simp only: in_range_def parse_def in_range_terms_parsed)
  moreover have "contains [Single 3, Interval 7 9] m \<longleftrightarrow> m \<in> {3, 7, 8, 9}"
    by (auto simp: contains_def)
  ultimately have 3: "in_range m ''3,7-9'' = Inr (m \<in> {3, 7, 8, 9})"
    by simp
  from 1 2 3 show ?thesis by blast
qed

theorem in_range_iff_contains_witness:
  "parse ''2019,2021-2023'' = Some [Single 2019, Interval 2021 2023]
   \<and> in_range 2022 ''2019,2021-2023'' = Inr (contains [Single 2019, Interval 2021 2023] 2022)
   \<and> in_range 2022 ''2019,2021-2023'' = Inr True
   \<and> in_range 2020 ''2019,2021-2023'' = Inr False"
proof -
  have h: "parse ''2019,2021-2023'' = Some [Single 2019, Interval 2021 2023]"
    by code_simp
  have c1: "contains [Single 2019, Interval 2021 2023] 2022" by (simp add: contains_def)
  have c2: "\<not> contains [Single 2019, Interval 2021 2023] 2020" by (simp add: contains_def)
  from in_range_iff_contains[OF h, of 2022] in_range_iff_contains[OF h, of 2020] h c1 c2
  show ?thesis by simp
qed

subsection \<open>Filename templates\<close>

lemma slugify_all_Some: "slugify_all (map Some names) = Inr (map slugify names)"
  by (induction names) simp_all

lemma format_default_template:
  "py_format ''{pub}-{auth}-{title}-{id}''
      [(''id'', i), (''auth'', au), (''title'', ti), (''pub'', pub), (''updt'', updt)]
   = Inr (pub @ ''-'' @ au @ ''-'' @ ti @ ''-'' @ i)"
  by (simp add: py_format_def field_value_def prepend_def is_digit_def)

text \<open>
  Claim C8. Rendering joins the author slugs with \<open>"-"\<close> before substitution: with the
  variables bound, the file name of an entry is the template formatted with \<open>auth\<close>
  bound to the slugs of the author names joined by \<open>"-"\<close>; for the default template
  \<open>"{pub}-{auth}-{title}-{id}"\<close> it is the publish year, the joined author slugs, the
  title slug and the identifier, separated by \<open>"-"\<close>. With publish year
  \<open>"2023"\<close>, authors \<open>["Art Ficial"]\<close>, title \<open>"Quantum Stuff"\<close> and identifier
  \<open>"2309.06314"\<close> the result is \<open>"2023-Art_Ficial-Quantum_Stuff-2309.06314"\<close>.
\<close>

theorem render_slug_joins_authors:
  assumes "id_var v = Some i" and "title v = Some (Some t)"
    and "publish_year v = Some pub" and "update_year v = Some updt"
  shows "render_slug a v (map Some names) =
           py_format (output_filename_template a)
             [(''id'', i), (''auth'', str_join ''-'' (map slugify names)),
              (''title'', slugify t), (''pub'', pub), (''updt'', updt)]
       \<and> (output_filename_template a = ''{pub}-{auth}-{title}-{id}'' \<longrightarrow>
            render_slug a v (map Some names) =
              Inr (pub @ ''-'' @ str_join ''-'' (map slugify names) @ ''-'' @ slugify t @ ''-'' @ i))
       \<and> py_format ''{pub}-{auth}-{title}-{id}''
             [(''id'', ''2309.06314''), (''auth'', str_join ''-'' (map slugify [''Art Ficial''])),
              (''title'', slugify ''Quantum Stuff''), (''pub'', ''2023''), (''updt'', u)]
           = Inr ''2023-Art_Ficial-Quantum_Stuff-2309.06314''"
proof -
  have 1: "render_slug a v (map Some names) =
           py_format (output_filename_template a)
             [(''id'', i), (''auth'', str_join ''-'' (map slugify names)),
              (''title'', slugify t), (''pub'', pub), (''updt'', updt)]"
    using assms by (simp add: render_slug_def slugify_all_Some)
  have 2: "output_filename_template a = ''{pub}-{auth}-{title}-{id}'' \<longrightarrow>
            render_slug a v (map Some names) =
              Inr (pub @ ''-'' @ str_join ''-'' (map slugify names) @ ''-'' @ slugify t @ ''-'' @ i)"
    using 1 by (simp add: format_default_template)
  have 3: "py_format ''{pub}-{auth}-{title}-{id}''
             [(''id'', ''2309.06314''), (''auth'', str_join ''-'' (map slugify [''Art Ficial''])),
              (''title'', slugify ''Quantum Stuff''), (''pub'', ''2023''), (''updt'', u)]
           = Inr ''2023-Art_Ficial-Quantum_Stuff-2309.06314''"
    by (simp only: format_default_template)
       (simp add: is_word_def is_digit_def is_lower_def is_upper_def)
  from 1 2 3 show ?thesis by blast
qed

theorem render_slug_joins_authors_witness:
  "render_slug ex_args
     (initial_vars\<lparr>id_var := Some ''2309.06314'', title := Some (Some ''Quantum Stuff''),
        publish_year := Some ''2023'', update_year := Some ''2024''\<rparr>)
     (map Some [''Art Ficial'', ''B. Tester''])
   = Inr ''2023-Art_Ficial-B_Tester-Quantum_Stuff-2309.06314''"
proof -
  have h1: "id_var (initial_vars\<lparr>id_var := Some ''2309.06314'', title := Some (Some ''Quantum Stuff''),
        publish_year := Some ''2023'', update_year := Some ''2024''\<rparr>) = Some ''2309.06314''" by simp
  have h2: "title (initial_vars\<lparr>id_var := Some ''2309.06314'', title := Some (Some ''Quantum Stuff''),
        publish_year := Some ''2023'', update_year := Some ''2024''\<rparr>) = Some (Some ''Quantum Stuff'')" by simp
  have h3: "publish_year (initial_vars\<lparr>id_var := Some ''2309.06314'', title := Some (Some ''Quantum Stuff''),
        publish_year := Some ''2023'', update_year := Some ''2024''\<rparr>) = Some ''2023''" by simp
  have h4: "update_year (initial_vars\<lparr>id_var := Some ''2309.06314'', title := Some (Some ''Quantum Stuff''),
        publish_year := Some ''2023'', update_year := Some ''2024''\<rparr>) = Some ''2024''" by simp
  have t: "output_filename_template ex_args = ''{pub}-{auth}-{title}-{id}''"
    by (simp add: ex_args_def)
  from render_slug_joins_authors[where a = ex_args and names = "[''Art Ficial'', ''B. Tester'']",
         OF h1 h2 h3 h4, THEN conjunct2, THEN conjunct1] t
  show ?thesis by (simp add: is_word_def is_digit_def is_lower_def is_upper_def)
qed

subsection \<open>Validation of a downloaded file\<close>

lemma emit_simps [simp]:
  "files (emit e s) = files s" "stdin (emit e s) = stdin s"
  "trace (emit e s) = trace s @ [e]" "fetches (emit e s) = fetches s"
  by (simp_all add: emit_def)

lemma remove_file_present:
  "files s p = Some c \<Longrightarrow>
   remove_file p s = (Inr (), emit (Remove p) (s\<lparr>files := (files s)(p := None)\<rparr>))"
  by (simp add: remove_file_def)

lemma first_valid_answer_Cons:
  "first_valid_answer (l # ls) =
     (if valid_answer (lower l) then Some (lower l) else first_valid_answer ls)"
  by (simp add: first_valid_answer_def)

lemma invalid_prefix_Cons:
  "invalid_prefix (l # ls) = (if valid_answer (lower l) then [] else l # invalid_prefix ls)"
  by (simp add: invalid_prefix_def)

lemma prompt_loop_files:
  "files s p = Some c \<Longrightarrow>
   files (snd (prompt_loop p inp s)) =
     (if \<exists>a\<in>set YES. first_valid_answer inp = Some a then (files s)(p := None) else files s)"
proof (induction inp arbitrary: s)
  case Nil
  then show ?case by (simp add: first_valid_answer_def)
next
  case (Cons l ls)
  show ?case
  proof (cases "lower l \<in> set YES")
    case True
    then show ?thesis
      using Cons.prems
      by (simp add: first_valid_answer_Cons valid_answer_def remove_file_present Let_def)
  next
    case False
    show ?thesis
    proof (cases "lower l \<in> set NO")
      case True
      with False show ?thesis
        by (simp add: first_valid_answer_Cons valid_answer_def Let_def)
    next
      case no: False
      have "files (emit (Print []) (emit (PrintErr USAGE)
               (emit (Prompt (NONPDF p)) (s\<lparr>stdin := ls\<rparr>)))) p = Some c"
        using Cons.prems by simp
      from Cons.IH[OF this] False no show ?thesis
        by (simp add: first_valid_answer_Cons valid_answer_def Let_def)
    qed
  qed
qed

lemma prompt_loop_usage:
  "count_events (\<lambda>e. e = PrintErr USAGE) (snd (prompt_loop p inp s)) =
     count_events (\<lambda>e. e = PrintErr USAGE) s + length (invalid_prefix inp)"
proof (induction inp arbitrary: s)
  case Nil
  then show ?case by (simp add: count_events_def invalid_prefix_def)
next
  case (Cons l ls)
  show ?case
    using Cons.IH[of "emit (Print []) (emit (PrintErr USAGE)
               (emit (Prompt (NONPDF p)) (s\<lparr>stdin := ls\<rparr>)))"]
    by (simp add: invalid_prefix_Cons valid_answer_def Let_def count_events_def
          remove_file_def split: option.split)
qed

lemma prompt_loop_prompts:
  "count_events is_prompt (snd (prompt_loop p inp s)) =
     count_events is_prompt s + Suc (length (invalid_prefix inp))"
proof (induction inp arbitrary: s)
  case Nil
  then show ?case by (simp add: count_events_def invalid_prefix_def)
next
  case (Cons l ls)
  show ?case
    using Cons.IH[of "emit (Print []) (emit (PrintErr USAGE)
               (emit (Prompt (NONPDF p)) (s\<lparr>stdin := ls\<rparr>)))"]
    by (simp add: invalid_prefix_Cons valid_answer_def Let_def count_events_def
          remove_file_def split: option.split)
qed

lemma prompt_loop_no_open:
  "count_events (\<lambda>e. e = OpenRead q) (snd (prompt_loop p inp s)) =
     count_events (\<lambda>e. e = OpenRead q) s"
proof (induction inp arbitrary: s)
  case Nil
  then show ?case by (simp add: count_events_def)
next
  case (Cons l ls)
  show ?case
    using Cons.IH[of "emit (Print []) (emit (PrintErr USAGE)
               (emit (Prompt (NONPDF p)) (s\<lparr>stdin := ls\<rparr>)))"]
    by (simp add: Let_def count_events_def remove_file_def split: option.split)
qed

text \<open>
  Claim C5. A fetched file whose first 4 bytes are \<^verbatim>\<open>%PDF\<close> is never deleted, whatever
  the policy. A fetched file that does not begin with those bytes is deleted if and only
  if the policy is AutoRemove, or the policy is Prompt and the operator's first valid
  answer, compared without regard to case, is empty, \<^verbatim>\<open>y\<close> or \<^verbatim>\<open>yes\<close>. Every other line
  of input produces a usage error and a new prompt, with no bound on their number: under
  Prompt there are as many usage errors as lines before the first valid answer, and one
  prompt more.
\<close>

theorem validate_pdf_disposition:
  assumes "files s file_path = Some content"
  shows "(take 4 content = ''%PDF'' \<longrightarrow>
            files (snd (validate_pdf file_path (keep_flag p) (remove_flag p) s)) file_path
              = Some content)
       \<and> (take 4 content \<noteq> ''%PDF'' \<longrightarrow>
            (files (snd (validate_pdf file_path (keep_flag p) (remove_flag p) s)) file_path = None
             \<longleftrightarrow> p = AutoRemove
                  \<or> (p = PromptOperator \<and> (\<exists>a\<in>set YES. first_valid_answer (stdin s) = Some a))))
       \<and> (take 4 content \<noteq> ''%PDF'' \<and> p = PromptOperator \<longrightarrow>
            count_events (\<lambda>e. e = PrintErr USAGE)
                (snd (validate_pdf file_path (keep_flag p) (remove_flag p) s))
              = count_events (\<lambda>e. e = PrintErr USAGE) s + length (invalid_prefix (stdin s))
            \<and> count_events is_prompt
                (snd (validate_pdf file_path (keep_flag p) (remove_flag p) s))
              = count_events is_prompt s + Suc (length (invalid_prefix (stdin s))))"
proof -
  let ?s1 = "emit (OpenRead file_path) s"
  have f1: "files ?s1 file_path = Some content" using assms by simp
  have c1: "count_events (\<lambda>e. e = PrintErr USAGE) ?s1 = count_events (\<lambda>e. e = PrintErr USAGE) s"
    "count_events is_prompt ?s1 = count_events is_prompt s"
    by (simp_all add: count_events_def)
  show ?thesis
  proof (cases p)
    case PromptOperator
    then show ?thesis
      using assms prompt_loop_files[OF f1, of "stdin s"] c1
        prompt_loop_usage[of file_path "stdin s" ?s1]
        prompt_loop_prompts[of file_path "stdin s" ?s1]
      by (simp add: validate_pdf_def keep_flag_def remove_flag_def Let_def)
  next
    case AutoRemove
    then show ?thesis
      using assms
      by (simp add: validate_pdf_def keep_flag_def remove_flag_def Let_def remove_file_def)
  next
    case AutoKeep
    then show ?thesis
      using assms by (simp add: validate_pdf_def keep_flag_def remove_flag_def)
  qed
qed


theorem validate_pdf_disposition_witness:
  "files ex_state ''./x.pdf'' = Some ''<html>withdrawn</html>''
   \<and> files (snd (validate_pdf ''./x.pdf'' (keep_flag PromptOperator) (remove_flag PromptOperator)
              ex_state)) ''./x.pdf'' = None
   \<and> count_events (\<lambda>e. e = PrintErr USAGE)
        (snd (validate_pdf ''./x.pdf'' (keep_flag PromptOperator) (remove_flag PromptOperator)
              ex_state)) = 1
   \<and> count_events is_prompt
        (snd (validate_pdf ''./x.pdf'' (keep_flag PromptOperator) (remove_flag PromptOperator)
              ex_state)) = 2
   \<and> files ex_state ''./y.pdf'' = Some ''%PDF-1.5 ...''
   \<and> files (snd (validate_pdf ''./y.pdf'' (keep_flag AutoRemove) (remove_flag AutoRemove)
              ex_state)) ''./y.pdf'' = Some ''%PDF-1.5 ...''"
proof -
  have h: "files ex_state ''./x.pdf'' = Some ''<html>withdrawn</html>''"
    by (simp add: ex_state_def)
  have a: "first_valid_answer (stdin ex_state) = Some ''y''"
    by code_simp
  have i: "invalid_prefix (stdin ex_state) = [''maybe'']"
    by code_simp
  have c: "count_events (\<lambda>e. e = PrintErr USAGE) ex_state = 0"
    "count_events is_prompt ex_state = 0"
    by (simp_all add: ex_state_def count_events_def)
  from validate_pdf_disposition[OF h, of PromptOperator] h a i c
  have x: "files (snd (validate_pdf ''./x.pdf'' (keep_flag PromptOperator) (remove_flag PromptOperator)
              ex_state)) ''./x.pdf'' = None
   \<and> count_events (\<lambda>e. e = PrintErr USAGE)
        (snd (validate_pdf ''./x.pdf'' (keep_flag PromptOperator) (remove_flag PromptOperator)
              ex_state)) = 1
   \<and> count_events is_prompt
        (snd (validate_pdf ''./x.pdf'' (keep_flag PromptOperator) (remove_flag PromptOperator)
              ex_state)) = 2"
    by (simp add: YES_def)
  have h2: "files ex_state ''./y.pdf'' = Some ''%PDF-1.5 ...''"
    by (simp add: ex_state_def)
  from validate_pdf_disposition[OF h2, of AutoRemove]
  have y: "files (snd (validate_pdf ''./y.pdf'' (keep_flag AutoRemove) (remove_flag AutoRemove)
              ex_state)) ''./y.pdf'' = Some ''%PDF-1.5 ...''"
    by simp
  from h x h2 y show ?thesis by blast
qed

text \<open>
  Claim C1 says that the check of the first 4 bytes is performed for every fetched file
  whatever the policy, and that AutoKeep skips only the removal. The script returns from
  \<^verbatim>\<open>validate_pdf\<close> at once when \<^verbatim>\<open>keep_non_pdf\<close> is set: the file is never opened.
\<close>

theorem signature_check_skipped_counterexample:
  "files ex_state ''./x.pdf'' = Some ''<html>withdrawn</html>''
   \<and> OpenRead ''./x.pdf'' \<notin> set (trace (snd (validate_pdf ''./x.pdf'' (keep_flag AutoKeep)
                                             (remove_flag AutoKeep) ex_state)))"
  by (simp add: validate_pdf_def keep_flag_def ex_state_def)

text \<open>
  Claim C1, amended. For every fetched file, the check of the first 4 bytes is performed
  exactly once when the policy is Prompt or AutoRemove, and not at all when the policy is
  AutoKeep: with \<^verbatim>\<open>keep_non_pdf\<close> set, \<^verbatim>\<open>validate_pdf\<close> returns without opening the file
  and without any other effect.
\<close>

theorem signature_check_unless_keep:
  assumes "files s file_path = Some content"
  shows "count_events (\<lambda>e. e = OpenRead file_path) (snd (validate_pdf file_path keep remove s))
           = count_events (\<lambda>e. e = OpenRead file_path) s + (if keep then 0 else 1)
       \<and> (keep \<longrightarrow> validate_pdf file_path keep remove s = (Inr (), s))"
proof (cases keep)
  case True
  then show ?thesis by (simp add: validate_pdf_def)
next
  case False
  let ?s1 = "emit (OpenRead file_path) s"
  have c: "count_events (\<lambda>e. e = OpenRead file_path) ?s1
             = count_events (\<lambda>e. e = OpenRead file_path) s + 1"
    by (simp add: count_events_def)
  have r: "count_events (\<lambda>e. e = OpenRead file_path) (snd (remove_file file_path ?s1))
             = count_events (\<lambda>e. e = OpenRead file_path) ?s1"
    by (simp add: remove_file_def count_events_def split: option.split)
  show ?thesis
    using False assms c r prompt_loop_no_open[of file_path file_path "stdin s" ?s1]
    by (simp add: validate_pdf_def Let_def)
qed

theorem signature_check_unless_keep_witness:
  "files ex_state ''./x.pdf'' = Some ''<html>withdrawn</html>''
   \<and> count_events (\<lambda>e. e = OpenRead ''./x.pdf'') (snd (validate_pdf ''./x.pdf'' False True ex_state)) = 1
   \<and> count_events (\<lambda>e. e = OpenRead ''./x.pdf'') (snd (validate_pdf ''./x.pdf'' True False ex_state)) = 0
   \<and> validate_pdf ''./x.pdf'' True False ex_state = (Inr (), ex_state)"
proof -
  have h: "files ex_state ''./x.pdf'' = Some ''<html>withdrawn</html>''"
    by (simp add: ex_state_def)
  have c: "count_events (\<lambda>e. e = OpenRead ''./x.pdf'') ex_state = 0"
    by (simp add: ex_state_def count_events_def)
  from signature_check_unless_keep[OF h, of False True]
       signature_check_unless_keep[OF h, of True False] h c
  show ?thesis by simp
qed

subsection \<open>The download loop\<close>

lemma retrieved_append: "retrieved (xs @ ys) = retrieved xs @ retrieved ys"
  by (induction xs rule: retrieved.induct) simp_all

lemma prompt_loop_retrieved:
  "retrieved (trace (snd (prompt_loop p inp s))) = retrieved (trace s)
   \<and> fetches (snd (prompt_loop p inp s)) = fetches s"
proof (induction inp arbitrary: s)
  case Nil
  then show ?case by (simp add: retrieved_append)
next
  case (Cons l ls)
  show ?case
    using Cons.IH[of "emit (Print []) (emit (PrintErr USAGE)
               (emit (Prompt (NONPDF p)) (s\<lparr>stdin := ls\<rparr>)))"]
    by (simp add: Let_def retrieved_append remove_file_def split: option.split)
qed

lemma validate_pdf_retrieved:
  "retrieved (trace (snd (validate_pdf p keep remove s))) = retrieved (trace s)
   \<and> fetches (snd (validate_pdf p keep remove s)) = fetches s"
  using prompt_loop_retrieved[of p "stdin s" "emit (OpenRead p) s"]
  by (simp add: validate_pdf_def Let_def retrieved_append remove_file_def split: option.split)

lemma validate_pdf_not_HTTPError:
  "fst (validate_pdf p keep remove s) \<noteq> Inl HTTPError"
proof -
  have "fst (prompt_loop p inp t) \<noteq> Inl HTTPError" for inp t
    by (induction inp arbitrary: t)
       (simp_all add: Let_def remove_file_def split: option.split)
  then show ?thesis
    by (simp add: validate_pdf_def Let_def remove_file_def split: option.split)
qed

lemma validate_pdf_no_prompt_ok:
  "files s p = Some c \<Longrightarrow> keep \<or> remove \<Longrightarrow> fst (validate_pdf p keep remove s) = Inr ()"
  by (auto simp: validate_pdf_def Let_def remove_file_def)

lemma validate_pdf_fail_messages:
  "count_events (\<lambda>e. e = PrintErr DOWNLOAD_FAIL_MESSAGE) (snd (validate_pdf p keep remove s))
     = count_events (\<lambda>e. e = PrintErr DOWNLOAD_FAIL_MESSAGE) s"
proof -
  have neq: "USAGE \<noteq> DOWNLOAD_FAIL_MESSAGE"
    by (simp add: USAGE_def DOWNLOAD_FAIL_MESSAGE_def)
  have "count_events (\<lambda>e. e = PrintErr DOWNLOAD_FAIL_MESSAGE) (snd (prompt_loop p inp t))
     = count_events (\<lambda>e. e = PrintErr DOWNLOAD_FAIL_MESSAGE) t" for inp t
  proof (induction inp arbitrary: t)
    case Nil
    then show ?case by (simp add: count_events_def)
  next
    case (Cons l ls)
    show ?case
      using Cons.IH[of "emit (Print []) (emit (PrintErr USAGE)
               (emit (Prompt (NONPDF p)) (t\<lparr>stdin := ls\<rparr>)))"] neq
      by (simp add: Let_def count_events_def remove_file_def split: option.split)
  qed
  from this[of "stdin s" "emit (OpenRead p) s"] show ?thesis
    by (simp add: validate_pdf_def Let_def count_events_def remove_file_def split: option.split)
qed


lemma download_links_attempts:
  "retrieved (trace (snd (download_links a w slug links k s))) =
     retrieved (trace s)
     @ take (fetches (snd (download_links a w slug links k s)) - fetches s)
         (zip links (map (local_path a slug) [k..<k + length links]))
   \<and> fetches s \<le> fetches (snd (download_links a w slug links k s))
   \<and> (links \<noteq> [] \<longrightarrow> fetches s < fetches (snd (download_links a w slug links k s)))
   \<and> (fst (download_links a w slug links k s) = Inr () \<longrightarrow>
        fetches (snd (download_links a w slug links k s)) = fetches s + length links)"
proof (induction links arbitrary: k s)
  case Nil
  show ?case by simp
next
  case (Cons link links)
  let ?p = "local_path a slug k"
  let ?s1 = "emit (Urlretrieve link ?p) (s\<lparr>fetches := Suc (fetches s)\<rparr>)"
  define all where
    "all = zip (link # links) (map (local_path a slug) [k..<k + length (link # links)])"
  have upt: "all = (link, ?p) # zip links (map (local_path a slug) [Suc k..<Suc k + length links])"
    unfolding all_def by (simp add: upt_conv_Cons del: upt_Suc)
  define good where "good r \<longleftrightarrow>
      retrieved (trace (snd r)) = retrieved (trace s) @ take (fetches (snd r) - fetches s) all
      \<and> fetches s < fetches (snd r)
      \<and> (fst r = Inr () \<longrightarrow> fetches (snd r) = fetches s + length (link # links))"
    for r :: "(error + unit) \<times> state"
  have stop: "good (Inl e, t)"
    if "retrieved (trace t) = retrieved (trace s) @ [(link, ?p)]" "fetches t = Suc (fetches s)"
    for e t
    using that by (simp add: good_def upt)
  have continue: "good (download_links a w slug links (Suc k) t)"
    if t: "retrieved (trace t) = retrieved (trace s) @ [(link, ?p)]" "fetches t = Suc (fetches s)"
    for t
  proof -
    let ?r = "download_links a w slug links (Suc k) t"
    from Cons.IH[of "Suc k" t]
    have 1: "retrieved (trace (snd ?r)) = retrieved (trace t)
               @ take (fetches (snd ?r) - fetches t)
                   (zip links (map (local_path a slug) [Suc k..<Suc k + length links]))"
      and 2: "fetches t \<le> fetches (snd ?r)"
      and 3: "fst ?r = Inr () \<longrightarrow> fetches (snd ?r) = fetches t + length links"
      by simp_all
    from 2 t(2) have d: "fetches (snd ?r) - fetches s = Suc (fetches (snd ?r) - fetches t)"
      by simp
    show ?thesis
      unfolding good_def using 1 2 3 t d by (simp add: upt)
  qed
  have s1: "retrieved (trace ?s1) = retrieved (trace s) @ [(link, ?p)]" "fetches ?s1 = Suc (fetches s)"
    by (simp_all add: retrieved_append)
  have "good (download_links a w slug (link # links) k s)"
  proof (cases "urlretrieve w (fetches s) link")
    case (FetchRaises e)
    show ?thesis
    proof (cases "e = HTTPError")
      case True
      have "good (download_links a w slug links (Suc k)
                    (emit (PrintErr DOWNLOAD_FAIL_MESSAGE) (emit Traceback ?s1)))"
        by (rule continue) (simp_all add: retrieved_append)
      with FetchRaises True show ?thesis by (simp add: Let_def)
    next
      case False
      from stop[OF s1] FetchRaises False show ?thesis by (simp add: Let_def)
    qed
  next
    case (Fetched content)
    let ?v = "validate_pdf ?p (keep_non_pdf a) (remove_non_pdf a)
                (?s1\<lparr>files := (files ?s1)(?p \<mapsto> content)\<rparr>)"
    have v: "retrieved (trace (snd ?v)) = retrieved (trace s) @ [(link, ?p)]"
      "fetches (snd ?v) = Suc (fetches s)"
      using validate_pdf_retrieved[of ?p "keep_non_pdf a" "remove_non_pdf a"
              "?s1\<lparr>files := (files ?s1)(?p \<mapsto> content)\<rparr>"]
      by (simp_all add: retrieved_append)
    show ?thesis
    proof (cases ?v)
      case (Pair r s2)
      with v have s2: "retrieved (trace s2) = retrieved (trace s) @ [(link, ?p)]"
        "fetches s2 = Suc (fetches s)" by simp_all
      show ?thesis
      proof (cases r)
        case (Inl e)
        with stop[OF s2] Fetched Pair show ?thesis by (simp add: Let_def)
      next
        case (Inr u)
        with continue[OF s2] Fetched Pair show ?thesis by (simp add: Let_def)
      qed
    qed
  qed
  then show ?case by (simp add: good_def all_def)
qed


lemma local_path_ordinal:
  "map (local_path a slug) [1..<Suc n] =
   map (\<lambda>k. output_dir a @ ''/'' @ slug @ (if k = 1 then [] else ''--'' @ str_nat k) @ ''.pdf'')
     [1..<Suc n]"
  by (rule map_cong) (auto simp: local_path_def)

text \<open>
  Claim C7. The download loop of an entry starts its counter at 1. The first link is
  fetched to \<open>{outputDir}/{basename}.pdf\<close> and the \<open>k\<close>-th link, for \<open>k \<ge> 2\<close>, to
  \<open>{outputDir}/{basename}--{k}.pdf\<close>, in link order: the attempts of the loop are the
  links paired with these paths, up to the number of calls of \<^verbatim>\<open>urlretrieve\<close> made. The
  counter advances once per attempt whatever the outcome of the fetch (the environment
  \<open>w\<close> is arbitrary); the first link is always attempted, and a loop that ends normally
  has attempted every link. With basename \<open>"X"\<close> the first two paths are \<open>X.pdf\<close> and
  \<open>X--2.pdf\<close> in the output directory.
\<close>

theorem download_paths_by_ordinal:
  "retrieved (trace (snd (download_links a w slug links 1 s))) =
     retrieved (trace s)
     @ take (fetches (snd (download_links a w slug links 1 s)) - fetches s)
         (zip links
            (map (\<lambda>k. output_dir a @ ''/'' @ slug @ (if k = 1 then [] else ''--'' @ str_nat k) @ ''.pdf'')
               [1..<Suc (length links)]))
   \<and> (links \<noteq> [] \<longrightarrow> fetches s < fetches (snd (download_links a w slug links 1 s)))
   \<and> (fst (download_links a w slug links 1 s) = Inr () \<longrightarrow>
        fetches (snd (download_links a w slug links 1 s)) = fetches s + length links)
   \<and> map (local_path a ''X'') [1, 2] = [output_dir a @ ''/X.pdf'', output_dir a @ ''/X--2.pdf'']"
proof -
  have "str_nat 2 = ''2''" by code_simp
  then have ex: "map (local_path a ''X'') [1, 2] = [output_dir a @ ''/X.pdf'', output_dir a @ ''/X--2.pdf'']"
    by (simp add: local_path_def)
  from download_links_attempts[of a w slug links 1 s] ex show ?thesis
    by (simp only: local_path_ordinal[symmetric] plus_1_eq_Suc) simp
qed

theorem download_paths_by_ordinal_witness:
  "fst (download_links ex_args (ex_world_http ex_feed_links) ''X''
          [''http://arxiv.org/pdf/2309.06314v1'', ''http://arxiv.org/pdf/2309.06314v2''] 1 ex_state0)
     = Inr ()
   \<and> retrieved (trace (snd (download_links ex_args (ex_world_http ex_feed_links) ''X''
          [''http://arxiv.org/pdf/2309.06314v1'', ''http://arxiv.org/pdf/2309.06314v2''] 1 ex_state0)))
     = [(''http://arxiv.org/pdf/2309.06314v1'', ''./X.pdf''),
        (''http://arxiv.org/pdf/2309.06314v2'', ''./X--2.pdf'')]"
proof -
  define r where "r = download_links ex_args (ex_world_http ex_feed_links) ''X''
          [''http://arxiv.org/pdf/2309.06314v1'', ''http://arxiv.org/pdf/2309.06314v2''] 1 ex_state0"
  have ok: "fst r = Inr ()" unfolding r_def by code_simp
  have s0: "trace ex_state0 = []" "fetches ex_state0 = 0" "output_dir ex_args = ''.''"
    by (simp_all add: ex_state0_def ex_args_def)
  have n: "str_nat (Suc (Suc 0)) = ''2''" by code_simp
  note t = download_paths_by_ordinal[of ex_args "ex_world_http ex_feed_links" "''X''"
         "[''http://arxiv.org/pdf/2309.06314v1'', ''http://arxiv.org/pdf/2309.06314v2'']" ex_state0,
         folded r_def]
  from t ok s0 n have paths: "retrieved (trace (snd r))
     = [(''http://arxiv.org/pdf/2309.06314v1'', ''./X.pdf''),
        (''http://arxiv.org/pdf/2309.06314v2'', ''./X--2.pdf'')]"
    by simp
  show ?thesis using ok paths unfolding r_def by (rule conjI)
qed

lemma download_links_not_HTTPError:
  "fst (download_links a w slug links k s) \<noteq> Inl HTTPError"
proof (induction links arbitrary: k s)
  case Nil
  show ?case by simp
next
  case (Cons link links)
  have through: "fst (case v of (Inl e, s2) \<Rightarrow> (Inl e, s2) | (Inr u, s2) \<Rightarrow> f s2) \<noteq> Inl HTTPError"
    if "fst v \<noteq> Inl HTTPError" and "\<And>s2. fst (f s2) \<noteq> Inl HTTPError"
    for v :: "(error + unit) \<times> state" and f :: "state \<Rightarrow> (error + unit) \<times> state"
    using that by (cases v; cases "fst v") auto
  show ?case
    using Cons.IH through[OF validate_pdf_not_HTTPError Cons.IH]
    by (simp add: Let_def split: fetch_outcome.split)
qed

lemma download_links_all_attempted:
  "only_http_failures w (fetches s) links \<Longrightarrow> keep_non_pdf a \<or> remove_non_pdf a \<Longrightarrow>
   fst (download_links a w slug links k s) = Inr ()
   \<and> count_events (\<lambda>e. e = PrintErr DOWNLOAD_FAIL_MESSAGE) (snd (download_links a w slug links k s))
       = count_events (\<lambda>e. e = PrintErr DOWNLOAD_FAIL_MESSAGE) s + http_failures w (fetches s) links"
proof (induction links arbitrary: k s)
  case Nil
  show ?case by simp
next
  case (Cons link links)
  let ?p = "local_path a slug k"
  let ?s1 = "emit (Urlretrieve link ?p) (s\<lparr>fetches := Suc (fetches s)\<rparr>)"
  from Cons.prems(1) have rest: "only_http_failures w (Suc (fetches s)) links" by simp
  show ?case
  proof (cases "urlretrieve w (fetches s) link")
    case (FetchRaises e)
    with Cons.prems(1) have e: "e = HTTPError" by simp
    let ?t = "emit (PrintErr DOWNLOAD_FAIL_MESSAGE) (emit Traceback ?s1)"
    have "only_http_failures w (fetches ?t) links" using rest by simp
    from Cons.IH[OF this Cons.prems(2), of "Suc k"] FetchRaises e show ?thesis
      by (simp add: Let_def count_events_def)
  next
    case (Fetched content)
    let ?s2 = "?s1\<lparr>files := (files ?s1)(?p \<mapsto> content)\<rparr>"
    let ?v = "validate_pdf ?p (keep_non_pdf a) (remove_non_pdf a) ?s2"
    have ok: "fst ?v = Inr ()"
      by (rule validate_pdf_no_prompt_ok[OF _ Cons.prems(2)]) simp
    have f: "fetches (snd ?v) = Suc (fetches s)"
      using validate_pdf_retrieved[of ?p "keep_non_pdf a" "remove_non_pdf a" ?s2] by simp
    have c: "count_events (\<lambda>e. e = PrintErr DOWNLOAD_FAIL_MESSAGE) (snd ?v)
              = count_events (\<lambda>e. e = PrintErr DOWNLOAD_FAIL_MESSAGE) s"
      using validate_pdf_fail_messages[of ?p "keep_non_pdf a" "remove_non_pdf a" ?s2]
      by (simp add: count_events_def)
    have "only_http_failures w (fetches (snd ?v)) links" using rest f by simp
    from Cons.IH[OF this Cons.prems(2), of "Suc k"] ok f c Fetched show ?thesis
      by (cases ?v) (simp add: Let_def)
  qed
qed


text \<open>
  Claim C2 says that a fetch failure on a link, network or protocol error alike, is
  reported and never stops the remaining links of the entry or the entries after it. The
  script catches \<^verbatim>\<open>urllib.error.HTTPError\<close> only. When the first download of an entry
  with two links fails with \<^verbatim>\<open>URLError\<close>, the run ends with that exception: the second
  link is never attempted and the second entry is never shown.
\<close>

theorem url_error_aborts_counterexample:
  "fst (main (ex_args\<lparr>download := True\<rparr>) (ex_world_urlerror ex_feed_links) ex_state0)
     = Inl URLError
   \<and> map fst (retrieved (trace (snd (main (ex_args\<lparr>download := True\<rparr>)
                                        (ex_world_urlerror ex_feed_links) ex_state0))))
     = [''http://arxiv.org/pdf/2309.06314v1'']
   \<and> displayed (trace (snd (main (ex_args\<lparr>download := True\<rparr>)
                                (ex_world_urlerror ex_feed_links) ex_state0)))
     = [(''1'', ''2309.06314'')]"
  by code_simp

lemma http_example_run:
  "map fst (retrieved (trace (snd (main (ex_args\<lparr>download := True, remove_non_pdf := True\<rparr>)
                                        (ex_world_http ex_feed_links) ex_state0))))
     = [''http://arxiv.org/pdf/2309.06314v1'', ''http://arxiv.org/pdf/2309.06314v2'',
        ''http://arxiv.org/pdf/2305.00005'']
   \<and> displayed (trace (snd (main (ex_args\<lparr>download := True, remove_non_pdf := True\<rparr>)
                                (ex_world_http ex_feed_links) ex_state0)))
     = [(''1'', ''2309.06314''), (''2'', ''2305.00005'')]
   \<and> count_events (\<lambda>e. e = PrintErr DOWNLOAD_FAIL_MESSAGE)
         (snd (main (ex_args\<lparr>download := True, remove_non_pdf := True\<rparr>)
                 (ex_world_http ex_feed_links) ex_state0)) = 2"
  by code_simp

text \<open>
  Claim C2, amended. A fetch that fails with \<^verbatim>\<open>HTTPError\<close> is reported (traceback and
  failure message on standard error) and the loop goes on with the remaining links of
  the entry, the counter advanced by one; no \<^verbatim>\<open>HTTPError\<close> ever leaves the download loop.
  A fetch that fails with any other exception ends the loop, and with it the run, with
  that exception. When no fetch of the loop fails with another exception and the policy
  does not prompt, the loop ends normally, so that the entries after it are processed:
  every link has been attempted, in order, and there is one failure message per failed
  fetch. In the example run the first link of the first entry fails and the second link
  and the link of the second entry are attempted all the same.
\<close>

theorem http_error_reported_and_skipped:
  "(urlretrieve w (fetches s) link = FetchRaises HTTPError \<longrightarrow>
      download_links a w slug (link # links) k s =
        download_links a w slug links (Suc k)
          (emit (PrintErr DOWNLOAD_FAIL_MESSAGE)
             (emit Traceback
                (emit (Urlretrieve link (local_path a slug k)) (s\<lparr>fetches := Suc (fetches s)\<rparr>)))))
   \<and> fst (download_links a w slug ls k s) \<noteq> Inl HTTPError
   \<and> (only_http_failures w (fetches s) ls \<and> (keep_non_pdf a \<or> remove_non_pdf a) \<longrightarrow>
        fst (download_links a w slug ls k s) = Inr ()
        \<and> map fst (retrieved (trace (snd (download_links a w slug ls k s))))
            = map fst (retrieved (trace s)) @ ls
        \<and> count_events (\<lambda>e. e = PrintErr DOWNLOAD_FAIL_MESSAGE) (snd (download_links a w slug ls k s))
            = count_events (\<lambda>e. e = PrintErr DOWNLOAD_FAIL_MESSAGE) s + http_failures w (fetches s) ls)
   \<and> map fst (retrieved (trace (snd (main (ex_args\<lparr>download := True, remove_non_pdf := True\<rparr>)
                                        (ex_world_http ex_feed_links) ex_state0))))
       = [''http://arxiv.org/pdf/2309.06314v1'', ''http://arxiv.org/pdf/2309.06314v2'',
          ''http://arxiv.org/pdf/2305.00005'']
   \<and> (urlretrieve w (fetches s) link = FetchRaises e \<and> e \<noteq> HTTPError \<longrightarrow>
        download_links a w slug (link # links) k s =
          (Inl e, emit (Urlretrieve link (local_path a slug k)) (s\<lparr>fetches := Suc (fetches s)\<rparr>)))"
proof -
  have 5: "urlretrieve w (fetches s) link = FetchRaises e \<and> e \<noteq> HTTPError \<longrightarrow>
        download_links a w slug (link # links) k s =
          (Inl e, emit (Urlretrieve link (local_path a slug k)) (s\<lparr>fetches := Suc (fetches s)\<rparr>))"
    by (simp add: Let_def)
  have 1: "urlretrieve w (fetches s) link = FetchRaises HTTPError \<longrightarrow>
      download_links a w slug (link # links) k s =
        download_links a w slug links (Suc k)
          (emit (PrintErr DOWNLOAD_FAIL_MESSAGE)
             (emit Traceback
                (emit (Urlretrieve link (local_path a slug k)) (s\<lparr>fetches := Suc (fetches s)\<rparr>))))"
    by (simp add: Let_def)
  have 2: "fst (download_links a w slug ls k s) \<noteq> Inl HTTPError"
    by (rule download_links_not_HTTPError)
  have 3: "fst (download_links a w slug ls k s) = Inr ()
        \<and> map fst (retrieved (trace (snd (download_links a w slug ls k s))))
            = map fst (retrieved (trace s)) @ ls
        \<and> count_events (\<lambda>e. e = PrintErr DOWNLOAD_FAIL_MESSAGE) (snd (download_links a w slug ls k s))
            = count_events (\<lambda>e. e = PrintErr DOWNLOAD_FAIL_MESSAGE) s + http_failures w (fetches s) ls"
    if h: "only_http_failures w (fetches s) ls" "keep_non_pdf a \<or> remove_non_pdf a"
  proof -
    note all = download_links_all_attempted[OF h, of slug k]
    note att = download_links_attempts[of a w slug ls k s]
    from all att have f: "fetches (snd (download_links a w slug ls k s)) - fetches s = length ls"
      by simp
    have "map fst (retrieved (trace (snd (download_links a w slug ls k s))))
            = map fst (retrieved (trace s)) @ ls"
      using att by (simp only: f) simp
    with all show ?thesis by simp
  qed
  from 1 2 3 http_example_run 5 show ?thesis by blast
qed

theorem http_error_reported_and_skipped_witness:
  "urlretrieve (ex_world_http ex_feed_links) (fetches ex_state0) ''http://arxiv.org/pdf/2309.06314v1''
     = FetchRaises HTTPError
   \<and> download_links (ex_args\<lparr>remove_non_pdf := True\<rparr>) (ex_world_http ex_feed_links) ''X''
         [''http://arxiv.org/pdf/2309.06314v1'', ''http://arxiv.org/pdf/2309.06314v2''] 1 ex_state0
       = download_links (ex_args\<lparr>remove_non_pdf := True\<rparr>) (ex_world_http ex_feed_links) ''X''
           [''http://arxiv.org/pdf/2309.06314v2''] (Suc 1)
           (emit (PrintErr DOWNLOAD_FAIL_MESSAGE)
              (emit Traceback
                 (emit (Urlretrieve ''http://arxiv.org/pdf/2309.06314v1''
                          (local_path (ex_args\<lparr>remove_non_pdf := True\<rparr>) ''X'' 1))
                    (ex_state0\<lparr>fetches := Suc (fetches ex_state0)\<rparr>))))
   \<and> only_http_failures (ex_world_http ex_feed_links) (fetches ex_state0)
        [''http://arxiv.org/pdf/2309.06314v1'', ''http://arxiv.org/pdf/2309.06314v2'']
   \<and> fst (download_links (ex_args\<lparr>remove_non_pdf := True\<rparr>) (ex_world_http ex_feed_links) ''X''
            [''http://arxiv.org/pdf/2309.06314v1'', ''http://arxiv.org/pdf/2309.06314v2''] 1 ex_state0)
       = Inr ()
   \<and> map fst (retrieved (trace (snd (download_links (ex_args\<lparr>remove_non_pdf := True\<rparr>)
            (ex_world_http ex_feed_links) ''X''
            [''http://arxiv.org/pdf/2309.06314v1'', ''http://arxiv.org/pdf/2309.06314v2''] 1 ex_state0))))
       = [''http://arxiv.org/pdf/2309.06314v1'', ''http://arxiv.org/pdf/2309.06314v2'']
   \<and> urlretrieve (ex_world_urlerror ex_feed_links) (fetches ex_state0)
         ''http://arxiv.org/pdf/2309.06314v1'' = FetchRaises URLError
   \<and> URLError \<noteq> HTTPError
   \<and> download_links ex_args (ex_world_urlerror ex_feed_links) ''X''
         [''http://arxiv.org/pdf/2309.06314v1'', ''http://arxiv.org/pdf/2309.06314v2''] 1 ex_state0
       = (Inl URLError,
          emit (Urlretrieve ''http://arxiv.org/pdf/2309.06314v1'' (local_path ex_args ''X'' 1))
            (ex_state0\<lparr>fetches := Suc (fetches ex_state0)\<rparr>))"
proof -
  define r where "r = download_links (ex_args\<lparr>remove_non_pdf := True\<rparr>) (ex_world_http ex_feed_links) ''X''
            [''http://arxiv.org/pdf/2309.06314v1'', ''http://arxiv.org/pdf/2309.06314v2''] 1 ex_state0"
  have h1: "urlretrieve (ex_world_http ex_feed_links) (fetches ex_state0)
              ''http://arxiv.org/pdf/2309.06314v1'' = FetchRaises HTTPError"
    by (simp add: ex_world_http_def ex_state0_def)
  have h2: "only_http_failures (ex_world_http ex_feed_links) (fetches ex_state0)
        [''http://arxiv.org/pdf/2309.06314v1'', ''http://arxiv.org/pdf/2309.06314v2'']"
    by (simp add: ex_world_http_def ex_state0_def)
  have h3: "keep_non_pdf (ex_args\<lparr>remove_non_pdf := True\<rparr>) \<or> remove_non_pdf (ex_args\<lparr>remove_non_pdf := True\<rparr>)"
    by simp
  have t0: "map fst (retrieved (trace ex_state0)) = []" by (simp add: ex_state0_def)
  note T = http_error_reported_and_skipped[of "ex_world_http ex_feed_links" ex_state0
      "''http://arxiv.org/pdf/2309.06314v1''" "ex_args\<lparr>remove_non_pdf := True\<rparr>" "''X''"
      "[''http://arxiv.org/pdf/2309.06314v2'']" 1
      "[''http://arxiv.org/pdf/2309.06314v1'', ''http://arxiv.org/pdf/2309.06314v2'']"]
  note step = T[THEN conjunct1, rule_format, OF h1]
  note t = T[THEN conjunct2, THEN conjunct2, THEN conjunct1, folded r_def]
  from t h2 h3 t0 have "fst r = Inr () \<and> map fst (retrieved (trace (snd r)))
       = [''http://arxiv.org/pdf/2309.06314v1'', ''http://arxiv.org/pdf/2309.06314v2'']"
    by simp
  then have main_part: "fst r = Inr ()" "map fst (retrieved (trace (snd r)))
       = [''http://arxiv.org/pdf/2309.06314v1'', ''http://arxiv.org/pdf/2309.06314v2'']"
    by simp_all
  have h5: "urlretrieve (ex_world_urlerror ex_feed_links) (fetches ex_state0)
              ''http://arxiv.org/pdf/2309.06314v1'' = FetchRaises URLError"
    by (simp add: ex_world_urlerror_def ex_state0_def)
  have h6: "URLError \<noteq> HTTPError" by simp
  note T5 = http_error_reported_and_skipped[of "ex_world_urlerror ex_feed_links" ex_state0
      "''http://arxiv.org/pdf/2309.06314v1''" ex_args "''X''"
      "[''http://arxiv.org/pdf/2309.06314v2'']" 1 "[]" URLError,
      THEN conjunct2, THEN conjunct2, THEN conjunct2, THEN conjunct2]
  from T5 h5 h6 have ab: "download_links ex_args (ex_world_urlerror ex_feed_links) ''X''
         [''http://arxiv.org/pdf/2309.06314v1'', ''http://arxiv.org/pdf/2309.06314v2''] 1 ex_state0
       = (Inl URLError,
          emit (Urlretrieve ''http://arxiv.org/pdf/2309.06314v1'' (local_path ex_args ''X'' 1))
            (ex_state0\<lparr>fetches := Suc (fetches ex_state0)\<rparr>))"
    by blast
  from h1 step h2 main_part h5 h6 ab show ?thesis unfolding r_def by blast
qed

subsection \<open>The loop over the entries\<close>

lemma numberings_append: "numberings (xs @ ys) = numberings xs @ numberings ys"
  by (induction xs rule: numberings.induct) simp_all

lemma numberings_download_events: "list_all download_event es \<Longrightarrow> numberings es = []"
  by (induction es rule: numberings.induct) simp_all

lemma prompt_loop_trace:
  "\<exists>new. trace (snd (prompt_loop p inp s)) = trace s @ new \<and> list_all download_event new"
proof (induction inp arbitrary: s)
  case Nil
  show ?case by simp
next
  case (Cons l ls)
  from Cons.IH[of "emit (Print []) (emit (PrintErr USAGE)
               (emit (Prompt (NONPDF p)) (s\<lparr>stdin := ls\<rparr>)))"]
  obtain new where "trace (snd (prompt_loop p ls (emit (Print []) (emit (PrintErr USAGE)
               (emit (Prompt (NONPDF p)) (s\<lparr>stdin := ls\<rparr>)))))) =
               trace s @ [Prompt (NONPDF p), PrintErr USAGE, Print []] @ new"
    and "list_all download_event new"
    by auto
  then show ?case
    by (auto simp: Let_def remove_file_def split: option.split)
qed

lemma validate_pdf_trace:
  "\<exists>new. trace (snd (validate_pdf p keep remove s)) = trace s @ new \<and> list_all download_event new"
proof -
  from prompt_loop_trace[of p "stdin s" "emit (OpenRead p) s"]
  obtain new where "trace (snd (prompt_loop p (stdin s) (emit (OpenRead p) s))) =
      trace s @ [OpenRead p] @ new" and "list_all download_event new"
    by auto
  then show ?thesis
    by (auto simp: validate_pdf_def Let_def remove_file_def split: option.split)
qed

lemma download_links_trace:
  "\<exists>new. trace (snd (download_links a w slug links k s)) = trace s @ new
         \<and> list_all download_event new"
proof (induction links arbitrary: k s)
  case Nil
  show ?case by simp
next
  case (Cons link links)
  let ?p = "local_path a slug k"
  let ?s1 = "emit (Urlretrieve link ?p) (s\<lparr>fetches := Suc (fetches s)\<rparr>)"
  have continue: "\<exists>new. trace (snd (download_links a w slug links (Suc k) t)) = trace s @ new
         \<and> list_all download_event new"
    if "trace t = trace s @ mid" "list_all download_event mid" for t mid
  proof -
    from Cons.IH[of "Suc k" t] obtain new
      where "trace (snd (download_links a w slug links (Suc k) t)) = trace t @ new"
        and "list_all download_event new" by auto
    with that have "trace (snd (download_links a w slug links (Suc k) t)) = trace s @ (mid @ new)"
      and "list_all download_event (mid @ new)" by simp_all
    then show ?thesis by blast
  qed
  show ?case
  proof (cases "urlretrieve w (fetches s) link")
    case (FetchRaises e)
    show ?thesis
    proof (cases "e = HTTPError")
      case True
      have "trace (emit (PrintErr DOWNLOAD_FAIL_MESSAGE) (emit Traceback ?s1))
              = trace s @ [Urlretrieve link ?p, Traceback, PrintErr DOWNLOAD_FAIL_MESSAGE]"
        by simp
      from continue[OF this] FetchRaises True show ?thesis by (simp add: Let_def)
    next
      case False
      with FetchRaises show ?thesis by (simp add: Let_def)
    qed
  next
    case (Fetched content)
    let ?v = "validate_pdf ?p (keep_non_pdf a) (remove_non_pdf a)
                (?s1\<lparr>files := (files ?s1)(?p \<mapsto> content)\<rparr>)"
    from validate_pdf_trace[of ?p "keep_non_pdf a" "remove_non_pdf a"
            "?s1\<lparr>files := (files ?s1)(?p \<mapsto> content)\<rparr>"]
    obtain new where v: "trace (snd ?v) = trace s @ (Urlretrieve link ?p # new)"
      "list_all download_event (Urlretrieve link ?p # new)"
      by auto
    show ?thesis
    proof (cases ?v)
      case (Pair r s2)
      with v have s2: "trace s2 = trace s @ (Urlretrieve link ?p # new)" by simp
      show ?thesis
      proof (cases r)
        case (Inl e)
        with Fetched Pair s2 v(2) show ?thesis by (auto simp: Let_def)
      next
        case (Inr u)
        with continue[OF s2 v(2)] Fetched Pair show ?thesis by (simp add: Let_def)
      qed
    qed
  qed
qed

lemma snd_result_case:
  "snd (case r of (Inl e, s3) \<Rightarrow> (Inl e, s3) | (Inr u, s3) \<Rightarrow> (Inr x, s3)) = snd r"
  by (cases r; cases "fst r") auto

lemma fst_result_case:
  "fst (case r of (Inl e, s3) \<Rightarrow> (Inl e, s3) | (Inr u, s3) \<Rightarrow> (Inr x, s3)) =
     (case fst r of Inl e \<Rightarrow> Inl e | Inr u \<Rightarrow> Inr x)"
  by (cases r; cases "fst r") auto

lemma show_entry_trace:
  "\<exists>new. trace (snd (show_entry a w v1 ls au s)) =
           trace s @ PrintNumbering (str_nat (Suc (entry_index v1))) # new
         \<and> numberings new = []"
proof -
  let ?s1 = "emit (PrintNumbering (str_nat (Suc (entry_index v1)))) s"
  have dl: "\<exists>new. trace (snd (download_links a w slug links 1
                (emit (PrintLinks pl ol) (emit (PrintEntry i au t pt ut slug) ?s1)))) =
           trace s @ PrintNumbering (str_nat (Suc (entry_index v1))) # new
         \<and> numberings new = []" for slug links pl ol i t pt ut
  proof -
    from download_links_trace[of a w slug links 1
            "emit (PrintLinks pl ol) (emit (PrintEntry i au t pt ut slug) ?s1)"]
    obtain new where n: "trace (snd (download_links a w slug links 1
                (emit (PrintLinks pl ol) (emit (PrintEntry i au t pt ut slug) ?s1)))) =
          trace s @ PrintNumbering (str_nat (Suc (entry_index v1)))
            # ([PrintEntry i au t pt ut slug, PrintLinks pl ol] @ new)"
      and d: "list_all download_event new"
      by auto
    have "numberings ([PrintEntry i au t pt ut slug, PrintLinks pl ol] @ new) = []"
      using d by (simp add: numberings_download_events)
    with n show ?thesis by blast
  qed
  show ?thesis
    using dl
    by (auto simp: show_entry_def Let_def snd_result_case
             split: sum.split option.split bool.split)
qed

lemma show_entry_index:
  "returns_index (fst (show_entry a w v1 ls au s)) (Suc (entry_index v1))"
  by (simp add: show_entry_def Let_def fst_result_case
           split: sum.split option.split bool.split)

lemma scan_child_entry_index:
  "scan_child w child (v, ls, au) = Inr (v', ls', au') \<Longrightarrow> entry_index v' = entry_index v"
  by (auto simp: scan_child_def split: if_splits option.splits sum.splits)

lemma scan_children_entry_index:
  "scan_children w cs (v, ls, au) = Inr (v', ls', au') \<Longrightarrow> entry_index v' = entry_index v"
proof (induction cs arbitrary: v ls au)
  case Nil
  then show ?case by simp
next
  case (Cons c cs)
  from Cons.prems obtain v1 ls1 au1 where 1: "scan_child w c (v, ls, au) = Inr (v1, ls1, au1)"
    and 2: "scan_children w cs (v1, ls1, au1) = Inr (v', ls', au')"
    by (auto split: sum.splits)
  from Cons.IH[OF 2] scan_child_entry_index[OF 1] show ?case by simp
qed

lemma process_entry_dropped:
  assumes "scan_children w (children entry) (v, [], []) = Inr (v1, ls, au)"
    and "year_excluded (publish_years a) (publish_year v1) = Inr True
         \<or> (year_excluded (publish_years a) (publish_year v1) = Inr False
            \<and> year_excluded (update_years a) (update_year v1) = Inr True)"
  shows "process_entry a w entry v s = (Inr v1, s) \<and> entry_index v1 = entry_index v"
  using assms scan_children_entry_index[OF assms(1)]
  by (auto simp: process_entry_def)

lemma process_entry_shown:
  assumes "scan_children w (children entry) (v, [], []) = Inr (v1, ls, au)"
    and "year_excluded (publish_years a) (publish_year v1) = Inr False"
    and "year_excluded (update_years a) (update_year v1) = Inr False"
  shows "(\<exists>new. trace (snd (process_entry a w entry v s)) =
                 trace s @ PrintNumbering (str_nat (entry_index v + 1)) # new
               \<and> numberings new = [])
       \<and> returns_index (fst (process_entry a w entry v s)) (entry_index v + 1)"
proof -
  have p: "process_entry a w entry v s = show_entry a w v1 ls au s"
    using assms by (simp add: process_entry_def)
  have i: "entry_index v1 = entry_index v"
    by (rule scan_children_entry_index[OF assms(1)])
  from show_entry_trace[of a w v1 ls au s] show_entry_index[of a w v1 ls au s]
  show ?thesis unfolding p i by simp
qed

lemma process_entry_not_shown:
  assumes sc: "scan_children w (children entry) (v, [], []) = Inr (v1, ls, au)"
    and no: "\<not> (year_excluded (publish_years a) (publish_year v1) = Inr False
              \<and> year_excluded (update_years a) (update_year v1) = Inr False)"
  shows "snd (process_entry a w entry v s) = s
       \<and> returns_index (fst (process_entry a w entry v s)) (entry_index v)"
proof (cases "year_excluded (publish_years a) (publish_year v1)")
  case (Inl e)
  with sc show ?thesis by (simp add: process_entry_def)
next
  case pub: (Inr b)
  note i = scan_children_entry_index[OF sc]
  show ?thesis
  proof (cases b)
    case True
    with sc pub i show ?thesis by (simp add: process_entry_def)
  next
    case False
    show ?thesis
    proof (cases "year_excluded (update_years a) (update_year v1)")
      case (Inl e)
      with sc pub False show ?thesis by (simp add: process_entry_def)
    next
      case (Inr c)
      with no pub False have "c" by simp
      with sc pub False Inr i show ?thesis by (simp add: process_entry_def)
    qed
  qed
qed

lemma process_entry_numbering:
  "(numberings (trace (snd (process_entry a w entry v s))) = numberings (trace s)
      \<and> returns_index (fst (process_entry a w entry v s)) (entry_index v))
   \<or> (numberings (trace (snd (process_entry a w entry v s)))
         = numberings (trace s) @ [str_nat (Suc (entry_index v))]
      \<and> returns_index (fst (process_entry a w entry v s)) (Suc (entry_index v)))"
proof (cases "scan_children w (children entry) (v, [], [])")
  case (Inl e)
  then show ?thesis by (simp add: process_entry_def)
next
  case (Inr acc)
  then obtain v1 ls au where sc: "scan_children w (children entry) (v, [], []) = Inr (v1, ls, au)"
    by (cases acc) auto
  show ?thesis
  proof (cases "year_excluded (publish_years a) (publish_year v1) = Inr False
                \<and> year_excluded (update_years a) (update_year v1) = Inr False")
    case True
    from process_entry_shown[OF sc conjunct1[OF True] conjunct2[OF True], of s]
    obtain new where t: "trace (snd (process_entry a w entry v s)) =
                 trace s @ PrintNumbering (str_nat (entry_index v + 1)) # new"
      and n: "numberings new = []"
      and i: "returns_index (fst (process_entry a w entry v s)) (entry_index v + 1)"
      by blast
    have "numberings (trace (snd (process_entry a w entry v s)))
            = numberings (trace s) @ [str_nat (Suc (entry_index v))]"
      by (simp only: t numberings_append) (simp add: n)
    with i show ?thesis by simp
  next
    case False
    from process_entry_not_shown[OF sc False, of s]
    show ?thesis by simp
  qed
qed

lemma process_entry_trace:
  "\<exists>new. trace (snd (process_entry a w entry v s)) = trace s @ new"
proof (cases "scan_children w (children entry) (v, [], [])")
  case (Inl e)
  then show ?thesis by (simp add: process_entry_def)
next
  case (Inr acc)
  then obtain v1 ls au where sc: "scan_children w (children entry) (v, [], []) = Inr (v1, ls, au)"
    by (cases acc) auto
  show ?thesis
  proof (cases "year_excluded (publish_years a) (publish_year v1) = Inr False
                \<and> year_excluded (update_years a) (update_year v1) = Inr False")
    case True
    from process_entry_shown[OF sc conjunct1[OF True] conjunct2[OF True], of s]
    show ?thesis by blast
  next
    case False
    from process_entry_not_shown[OF sc False, of s]
    show ?thesis by simp
  qed
qed

lemma process_entries_trace:
  "\<exists>new. trace (snd (process_entries a w es v s)) = trace s @ new"
proof (induction es arbitrary: v s)
  case Nil
  show ?case by simp
next
  case (Cons e es)
  obtain r s1 where p: "process_entry a w e v s = (r, s1)" by (cases "process_entry a w e v s")
  from process_entry_trace[of a w e v s] p obtain new1 where 1: "trace s1 = trace s @ new1"
    by auto
  show ?case
  proof (cases r)
    case (Inl err)
    with p 1 show ?thesis by simp
  next
    case (Inr v1)
    from Cons.IH[of v1 s1] obtain new2
      where "trace (snd (process_entries a w es v1 s1)) = trace s1 @ new2" by auto
    with p 1 Inr show ?thesis by simp
  qed
qed

lemma process_entries_numbering:
  "\<exists>m. numberings (trace (snd (process_entries a w es v s)))
         = numberings (trace s) @ map str_nat [Suc (entry_index v)..<Suc (entry_index v) + m]
       \<and> returns_index (fst (process_entries a w es v s)) (entry_index v + m)"
proof (induction es arbitrary: v s)
  case Nil
  show ?case by (rule exI[of _ 0]) simp
next
  case (Cons e es)
  obtain r s1 where p: "process_entry a w e v s = (r, s1)" by (cases "process_entry a w e v s")
  from process_entry_numbering[of a w e v s] p
  obtain d where n1: "numberings (trace s1) = numberings (trace s)
               @ map str_nat [Suc (entry_index v)..<Suc (entry_index v) + d]"
    and i1: "returns_index r (entry_index v + d)"
  proof (elim disjE conjE)
    assume "numberings (trace (snd (process_entry a w e v s))) = numberings (trace s)"
      "returns_index (fst (process_entry a w e v s)) (entry_index v)"
    with p show ?thesis by (intro that[of 0]) simp_all
  next
    assume "numberings (trace (snd (process_entry a w e v s)))
              = numberings (trace s) @ [str_nat (Suc (entry_index v))]"
      "returns_index (fst (process_entry a w e v s)) (Suc (entry_index v))"
    with p show ?thesis by (intro that[of 1]) simp_all
  qed
  show ?case
  proof (cases r)
    case (Inl err)
    with p n1 show ?thesis by (intro exI[of _ d]) simp
  next
    case (Inr v1)
    with i1 have iv: "entry_index v1 = entry_index v + d" by simp
    from Cons.IH[of v1 s1] obtain m
      where m: "numberings (trace (snd (process_entries a w es v1 s1)))
         = numberings (trace s1) @ map str_nat [Suc (entry_index v1)..<Suc (entry_index v1) + m]"
        and im: "returns_index (fst (process_entries a w es v1 s1)) (entry_index v1 + m)"
      by auto
    have "[Suc (entry_index v)..<Suc (entry_index v) + d] @ [Suc (entry_index v1)..<Suc (entry_index v1) + m]
            = [Suc (entry_index v)..<Suc (entry_index v) + (d + m)]"
      using iv upt_add_eq_append[of "Suc (entry_index v)" "Suc (entry_index v) + d" m]
      by (simp add: add.assoc)
    then have "map str_nat [Suc (entry_index v)..<Suc (entry_index v) + d]
             @ map str_nat [Suc (entry_index v1)..<Suc (entry_index v1) + m]
            = map str_nat [Suc (entry_index v)..<Suc (entry_index v) + (d + m)]"
      by (simp only: map_append[symmetric])
    with p Inr n1 m im iv show ?thesis
      by (intro exI[of _ "d + m"]) (simp add: add.assoc)
  qed
qed


lemma main_numbering:
  "\<exists>m. numberings (trace (snd (main a w s))) = numberings (trace s) @ map str_nat [1..<Suc m]
       \<and> returns_index (fst (main a w s)) m"
proof (cases "fetch_feed w (query_url a w)")
  case (Inl e)
  then show ?thesis
    by (intro exI[of _ 0]) (simp add: main_def Let_def numberings_append)
next
  case (Inr root)
  from process_entries_numbering[of a w "entry_list root" initial_vars
         "emit (Urlopen (query_url a w)) s"]
  obtain m where "numberings (trace (snd (process_entries a w (entry_list root) initial_vars
                     (emit (Urlopen (query_url a w)) s))))
         = numberings (trace s) @ map str_nat [1..<Suc m]"
    and "returns_index (fst (process_entries a w (entry_list root) initial_vars
                     (emit (Urlopen (query_url a w)) s))) m"
    by (auto simp: initial_vars_def numberings_append)
  with Inr show ?thesis
    by (intro exI[of _ m]) (simp add: main_def Let_def)
qed

lemma filtered_example_run:
  "displayed (trace (snd (main (ex_args\<lparr>publish_years := Some ''2019,2021,2023''\<rparr>)
                            (ex_world_http ex_feed5) ex_state0)))
     = [(''1'', ''1901.00001''), (''2'', ''2103.00003''), (''3'', ''2305.00005'')]"
  by code_simp

text \<open>
  Claim C6. The display indices come from one counter that starts at 1 and advances only
  when an entry survives the active year filters, in feed order. In every run the
  indices printed are \<open>1, 2, \<dots>, m\<close> without a gap, and a run that ends normally leaves
  the counter at \<open>m\<close>. An entry that a filter excludes is skipped with no output and the
  counter unchanged; an entry that passes both filters is headed by the next index, and
  the counter is one more after it. In the example a feed of five entries is filtered so
  that the second and the fourth are excluded: the indices 1, 2, 3 are shown with the
  first, third and fifth entry.
\<close>

theorem display_indices_consecutive:
  "numberings (trace (snd (main a w s))) =
     numberings (trace s)
     @ map str_nat [1..<Suc (length (numberings (trace (snd (main a w s))))
                             - length (numberings (trace s)))]
   \<and> (\<forall>v'. fst (main a w s) = Inr v' \<longrightarrow>
          entry_index v' = length (numberings (trace (snd (main a w s))))
                           - length (numberings (trace s)))
   \<and> (scan_children w (children entry) (v, [], []) = Inr (v1, ls, au) \<longrightarrow>
        (year_excluded (publish_years a) (publish_year v1) = Inr True
           \<or> (year_excluded (publish_years a) (publish_year v1) = Inr False
              \<and> year_excluded (update_years a) (update_year v1) = Inr True) \<longrightarrow>
         process_entry a w entry v t = (Inr v1, t) \<and> entry_index v1 = entry_index v)
        \<and> (year_excluded (publish_years a) (publish_year v1) = Inr False
           \<and> year_excluded (update_years a) (update_year v1) = Inr False \<longrightarrow>
           (\<exists>new. trace (snd (process_entry a w entry v t)) =
                    trace t @ PrintNumbering (str_nat (entry_index v + 1)) # new
                  \<and> numberings new = [])
           \<and> (\<forall>v'. fst (process_entry a w entry v t) = Inr v' \<longrightarrow>
                  entry_index v' = entry_index v + 1)))
   \<and> displayed (trace (snd (main (ex_args\<lparr>publish_years := Some ''2019,2021,2023''\<rparr>)
                                (ex_world_http ex_feed5) ex_state0)))
       = [(''1'', ''1901.00001''), (''2'', ''2103.00003''), (''3'', ''2305.00005'')]"
proof -
  from main_numbering[of a w s] obtain m
    where n: "numberings (trace (snd (main a w s))) = numberings (trace s) @ map str_nat [1..<Suc m]"
      and r: "returns_index (fst (main a w s)) m"
    by blast
  from n have len: "length (numberings (trace (snd (main a w s)))) - length (numberings (trace s)) = m"
    by simp
  have 1: "numberings (trace (snd (main a w s))) =
     numberings (trace s)
     @ map str_nat [1..<Suc (length (numberings (trace (snd (main a w s))))
                             - length (numberings (trace s)))]"
    unfolding len by (rule n)
  have 2: "\<forall>v'. fst (main a w s) = Inr v' \<longrightarrow>
          entry_index v' = length (numberings (trace (snd (main a w s))))
                           - length (numberings (trace s))"
    unfolding len using r by (cases "fst (main a w s)") simp_all
  have 3: "process_entry a w entry v t = (Inr v1, t) \<and> entry_index v1 = entry_index v"
    if "scan_children w (children entry) (v, [], []) = Inr (v1, ls, au)"
      and "year_excluded (publish_years a) (publish_year v1) = Inr True
           \<or> (year_excluded (publish_years a) (publish_year v1) = Inr False
              \<and> year_excluded (update_years a) (update_year v1) = Inr True)"
    using that by (rule process_entry_dropped)
  have 4: "(\<exists>new. trace (snd (process_entry a w entry v t)) =
                    trace t @ PrintNumbering (str_nat (entry_index v + 1)) # new
                  \<and> numberings new = [])
           \<and> (\<forall>v'. fst (process_entry a w entry v t) = Inr v' \<longrightarrow>
                  entry_index v' = entry_index v + 1)"
    if sc: "scan_children w (children entry) (v, [], []) = Inr (v1, ls, au)"
      and f: "year_excluded (publish_years a) (publish_year v1) = Inr False
           \<and> year_excluded (update_years a) (update_year v1) = Inr False"
  proof -
    note sh = process_entry_shown[OF sc conjunct1[OF f] conjunct2[OF f], of t]
    have "\<forall>v'. fst (process_entry a w entry v t) = Inr v' \<longrightarrow> entry_index v' = entry_index v + 1"
      using conjunct2[OF sh] by (cases "fst (process_entry a w entry v t)") simp_all
    with conjunct1[OF sh] show ?thesis by (rule conjI)
  qed
  from 1 2 3 4 filtered_example_run show ?thesis by blast
qed


theorem display_indices_consecutive_witness:
  "fst (main (ex_args\<lparr>publish_years := Some ''2019,2021,2023''\<rparr>) (ex_world_http ex_feed5) ex_state0)
     = Inr \<lparr>entry_index = 3, id_var = Some ''2305.00005'', title = Some (Some ''Five''),
            publish_time = Some ''2023-09-12T17:00:00Z'', publish_year = Some ''2023'',
            update_time = Some ''2023-09-12T17:00:00Z'', update_year = Some ''2023''\<rparr>
   \<and> length (numberings (trace (snd (main (ex_args\<lparr>publish_years := Some ''2019,2021,2023''\<rparr>)
                                           (ex_world_http ex_feed5) ex_state0))))
       - length (numberings (trace ex_state0)) = 3
   \<and> scan_children (ex_world_http ex_feed5) (children (ex_entry ''2002.00002'' ''2020'' ''Two''))
         (initial_vars, [], [])
       = Inr (\<lparr>entry_index = 0, id_var = Some ''2002.00002'', title = Some (Some ''Two''),
               publish_time = Some ''2020-09-12T17:00:00Z'', publish_year = Some ''2020'',
               update_time = Some ''2020-09-12T17:00:00Z'', update_year = Some ''2020''\<rparr>,
              [pdf_link ''http://arxiv.org/pdf/2002.00002''], [Some ''Art I. Ficial''])
   \<and> year_excluded (publish_years (ex_args\<lparr>publish_years := Some ''2019,2021,2023''\<rparr>))
         (Some ''2020'') = Inr True
   \<and> process_entry (ex_args\<lparr>publish_years := Some ''2019,2021,2023''\<rparr>) (ex_world_http ex_feed5)
         (ex_entry ''2002.00002'' ''2020'' ''Two'') initial_vars ex_state0
       = (Inr \<lparr>entry_index = 0, id_var = Some ''2002.00002'', title = Some (Some ''Two''),
               publish_time = Some ''2020-09-12T17:00:00Z'', publish_year = Some ''2020'',
               update_time = Some ''2020-09-12T17:00:00Z'', update_year = Some ''2020''\<rparr>,
          ex_state0)
   \<and> scan_children (ex_world_http ex_feed5) (children (ex_entry ''1901.00001'' ''2019'' ''One''))
         (initial_vars, [], [])
       = Inr (\<lparr>entry_index = 0, id_var = Some ''1901.00001'', title = Some (Some ''One''),
               publish_time = Some ''2019-09-12T17:00:00Z'', publish_year = Some ''2019'',
               update_time = Some ''2019-09-12T17:00:00Z'', update_year = Some ''2019''\<rparr>,
              [pdf_link ''http://arxiv.org/pdf/1901.00001''], [Some ''Art I. Ficial''])
   \<and> year_excluded (publish_years (ex_args\<lparr>publish_years := Some ''2019,2021,2023''\<rparr>))
         (Some ''2019'') = Inr False
   \<and> year_excluded (update_years (ex_args\<lparr>publish_years := Some ''2019,2021,2023''\<rparr>))
         (Some ''2019'') = Inr False
   \<and> fst (process_entry (ex_args\<lparr>publish_years := Some ''2019,2021,2023''\<rparr>) (ex_world_http ex_feed5)
         (ex_entry ''1901.00001'' ''2019'' ''One'') initial_vars ex_state0)
       = Inr \<lparr>entry_index = 1, id_var = Some ''1901.00001'', title = Some (Some ''One''),
               publish_time = Some ''2019-09-12T17:00:00Z'', publish_year = Some ''2019'',
               update_time = Some ''2019-09-12T17:00:00Z'', update_year = Some ''2019''\<rparr>
   \<and> entry_index \<lparr>entry_index = 1, id_var = Some ''1901.00001'', title = Some (Some ''One''),
               publish_time = Some ''2019-09-12T17:00:00Z'', publish_year = Some ''2019'',
               update_time = Some ''2019-09-12T17:00:00Z'', update_year = Some ''2019''\<rparr>
       = entry_index initial_vars + 1"
proof -
  define A where "A = ex_args\<lparr>publish_years := Some ''2019,2021,2023''\<rparr>"
  define W where "W = ex_world_http ex_feed5"
  define V5 where "V5 = \<lparr>entry_index = 3, id_var = Some ''2305.00005'', title = Some (Some ''Five''),
            publish_time = Some ''2023-09-12T17:00:00Z'', publish_year = Some ''2023'',
            update_time = Some ''2023-09-12T17:00:00Z'', update_year = Some ''2023''\<rparr>"
  define V1 where "V1 = \<lparr>entry_index = 0, id_var = Some ''2002.00002'', title = Some (Some ''Two''),
               publish_time = Some ''2020-09-12T17:00:00Z'', publish_year = Some ''2020'',
               update_time = Some ''2020-09-12T17:00:00Z'', update_year = Some ''2020''\<rparr>"
  define U0 where "U0 = \<lparr>entry_index = 0, id_var = Some ''1901.00001'', title = Some (Some ''One''),
               publish_time = Some ''2019-09-12T17:00:00Z'', publish_year = Some ''2019'',
               update_time = Some ''2019-09-12T17:00:00Z'', update_year = Some ''2019''\<rparr>"
  define U1 where "U1 = \<lparr>entry_index = 1, id_var = Some ''1901.00001'', title = Some (Some ''One''),
               publish_time = Some ''2019-09-12T17:00:00Z'', publish_year = Some ''2019'',
               update_time = Some ''2019-09-12T17:00:00Z'', update_year = Some ''2019''\<rparr>"
  define E where "E = ex_entry ''2002.00002'' ''2020'' ''Two''"
  define E1 where "E1 = ex_entry ''1901.00001'' ''2019'' ''One''"
  define R where "R = main A W ex_state0"
  have m: "fst R = Inr V5"
    unfolding R_def A_def W_def V5_def by code_simp
  have sc: "scan_children W (children E) (initial_vars, [], [])
              = Inr (V1, [pdf_link ''http://arxiv.org/pdf/2002.00002''], [Some ''Art I. Ficial''])"
    unfolding W_def E_def V1_def by code_simp
  have ex: "year_excluded (publish_years A) (Some ''2020'') = Inr True"
    unfolding A_def by code_simp
  have py: "publish_year V1 = Some ''2020''" by (simp add: V1_def)
  have i5: "entry_index V5 = 3" by (simp add: V5_def)
  note T = display_indices_consecutive[where a = A and w = W and s = ex_state0 and entry = E
      and v = initial_vars and ?v1.0 = V1 and ls = "[pdf_link ''http://arxiv.org/pdf/2002.00002'']"
      and au = "[Some ''Art I. Ficial'']" and t = ex_state0, folded R_def]
  from T m have "entry_index V5 = length (numberings (trace (snd R)))
                           - length (numberings (trace ex_state0))"
    by blast
  with i5 have a: "length (numberings (trace (snd R))) - length (numberings (trace ex_state0)) = 3"
    by simp
  from ex py have ex': "year_excluded (publish_years A) (publish_year V1) = Inr True" by simp
  from T sc ex' have b: "process_entry A W E initial_vars ex_state0 = (Inr V1, ex_state0)"
    by blast
  have sc1: "scan_children W (children E1) (initial_vars, [], [])
              = Inr (U0, [pdf_link ''http://arxiv.org/pdf/1901.00001''], [Some ''Art I. Ficial''])"
    unfolding W_def E1_def U0_def by code_simp
  have p1: "year_excluded (publish_years A) (Some ''2019'') = Inr False"
    unfolding A_def by code_simp
  have u1: "year_excluded (update_years A) (Some ''2019'') = Inr False"
    unfolding A_def by code_simp
  have y0: "publish_year U0 = Some ''2019''" "update_year U0 = Some ''2019''"
    by (simp_all add: U0_def)
  from p1 u1 y0 have f1: "year_excluded (publish_years A) (publish_year U0) = Inr False
      \<and> year_excluded (update_years A) (update_year U0) = Inr False" by simp
  have r1: "fst (process_entry A W E1 initial_vars ex_state0) = Inr U1"
    unfolding A_def W_def E1_def U1_def by code_simp
  note T1 = display_indices_consecutive[where a = A and w = W and entry = E1
      and v = initial_vars and ?v1.0 = U0 and ls = "[pdf_link ''http://arxiv.org/pdf/1901.00001'']"
      and au = "[Some ''Art I. Ficial'']" and t = ex_state0,
      THEN conjunct2, THEN conjunct2, THEN conjunct1]
  from T1 sc1 f1 r1 have c: "entry_index U1 = entry_index initial_vars + 1"
    by blast
  from m a sc ex b sc1 p1 u1 r1 c show ?thesis
    unfolding R_def A_def W_def V5_def V1_def E_def E1_def U0_def U1_def by blast
qed

text \<open>
  Claim C3 says that a malformed range specification or a template with an unknown
  placeholder makes the program fail at startup, before any network call. The script
  sends the query first and reads the ranges and the template only inside the loop over
  the entries: with a malformed publish-year range the \<^verbatim>\<open>ValueError\<close> comes after the
  query, with an unknown placeholder the \<^verbatim>\<open>KeyError\<close> comes after the query and the
  heading of the first entry, and when the feed has no entry a run in which all three
  ranges and the template are malformed ends without any error.
\<close>

theorem malformed_configuration_counterexample:
  "fst (main (ex_args\<lparr>publish_years := Some ''20x9''\<rparr>) (ex_world_http ex_feed5) ex_state0)
     = Inl ValueError
   \<and> trace (snd (main (ex_args\<lparr>publish_years := Some ''20x9''\<rparr>) (ex_world_http ex_feed5) ex_state0))
     = [Urlopen (query_url ex_args (ex_world_http ex_feed5))]
   \<and> fst (main (ex_args\<lparr>output_filename_template := ''{year}''\<rparr>) (ex_world_http ex_feed5) ex_state0)
     = Inl KeyError
   \<and> trace (snd (main (ex_args\<lparr>output_filename_template := ''{year}''\<rparr>)
                    (ex_world_http ex_feed5) ex_state0))
     = [Urlopen (query_url ex_args (ex_world_http ex_feed5)), PrintNumbering ''1'']
   \<and> fst (main (ex_args\<lparr>publish_years := Some ''20x9'', update_years := Some ''1-2-3'',
                        download_selection := Some ''x'', output_filename_template := ''{year}''\<rparr>)
             (ex_world_http ex_feed_empty) ex_state0)
     = Inr initial_vars"
  by code_simp

lemma str_split_nonempty: "str_split sep xs \<noteq> []"
  by (induction xs) (auto split: list.split)

lemma str_split_append:
  "str_split sep (xs @ sep # ys) = str_split sep xs @ str_split sep ys"
proof (induction xs)
  case Nil
  show ?case by simp
next
  case (Cons c xs)
  obtain w ws where w: "str_split sep xs = w # ws"
    using str_split_nonempty[of sep xs] by (cases "str_split sep xs") auto
  with Cons show ?case by simp
qed

lemma str_split_single: "sep \<notin> set xs \<Longrightarrow> str_split sep xs = [xs]"
  by (induction xs) auto

lemma prepend_prepend: "prepend p (prepend q r) = prepend (p @ q) r"
  by (cases r) (simp_all add: prepend_def)

lemma format_from_literal:
  "\<forall>c\<in>set pre. c \<noteq> CHR 0x7B \<and> c \<noteq> CHR 0x7D \<Longrightarrow>
   format_from kw None (pre @ rest) = prepend pre (format_from kw None rest)"
proof (induction pre)
  case Nil
  show ?case by (cases "format_from kw None rest") (simp_all add: prepend_def)
next
  case (Cons c pre)
  then show ?case by (simp add: prepend_prepend)
qed

lemma format_from_field:
  "\<forall>c\<in>set name. c \<notin> set ''{}!:.['' \<Longrightarrow>
   format_from kw (Some acc) (name @ CHR 0x7D # post) =
     (case field_value kw (acc @ name) of
        Inl e \<Rightarrow> Inl e
      | Inr v \<Rightarrow> prepend v (format_from kw None post))"
proof (induction name arbitrary: acc)
  case Nil
  show ?case by simp
next
  case (Cons c name)
  from Cons.prems have c: "c \<noteq> CHR 0x7B" "c \<noteq> CHR 0x7D" "c \<notin> set ''!:.[''"
    and rest: "\<forall>c\<in>set name. c \<notin> set ''{}!:.[''"
    by auto
  from Cons.IH[OF rest, of "acc @ [c]"] c show ?case by simp
qed

lemma format_unknown_placeholder:
  assumes pre: "\<forall>c\<in>set pre. c \<noteq> CHR 0x7B \<and> c \<noteq> CHR 0x7D"
    and name: "\<forall>c\<in>set name. c \<notin> set ''{}!:.[''" "name \<noteq> []" "\<not> list_all is_digit name"
    and unknown: "map_of kw name = None"
  shows "py_format (pre @ ''{'' @ name @ ''}'' @ post) kw = Inl KeyError"
proof -
  obtain d ds where n: "name = d # ds" using name(2) by (cases name) auto
  with name(1) have d: "d \<noteq> CHR 0x7B" by auto
  have fv: "field_value kw name = Inl KeyError"
    using name(2,3) unknown by (simp add: field_value_def)
  have "format_from kw None (CHR 0x7B # name @ CHR 0x7D # post)
          = format_from kw (Some []) (name @ CHR 0x7D # post)"
    using n d by simp
  also have "\<dots> = Inl KeyError"
    using format_from_field[OF name(1), of kw "[]" post] fv by simp
  finally have "format_from kw None (CHR 0x7B # name @ CHR 0x7D # post) = Inl KeyError" .
  then show ?thesis
    using format_from_literal[OF pre, of kw "CHR 0x7B # name @ CHR 0x7D # post"]
    by (simp add: py_format_def prepend_def)
qed

lemma process_entries_append:
  "process_entries a w (pre @ rest) v s =
     (case process_entries a w pre v s of
        (Inl e, s') \<Rightarrow> (Inl e, s')
      | (Inr v', s') \<Rightarrow> process_entries a w rest v' s')"
proof (induction pre arbitrary: v s)
  case Nil
  show ?case by simp
next
  case (Cons entry pre)
  show ?case
    by (cases "process_entry a w entry v s"; cases "fst (process_entry a w entry v s)")
       (simp_all add: Cons.IH)
qed

lemma prepend_eq_Inr: "prepend p r = Inr out \<longleftrightarrow> (\<exists>t. r = Inr t \<and> out = p @ t)"
  by (cases r) (auto simp: prepend_def)

lemma format_from_prefix:
  "format_from kw m pre = Inr out \<Longrightarrow>
   format_from kw m (pre @ rest) = prepend out (format_from kw None rest)"
proof (induction kw m pre arbitrary: out rule: format_from.induct)
  case (1 kw)
  then show ?case by (cases "format_from kw None rest") (simp_all add: prepend_def)
next
  case (2 kw c cs)
  show ?case
  proof (cases "c = CHR 0x7B")
    case open_brace: True
    show ?thesis
    proof (cases cs)
      case Nil
      with 2(5) open_brace show ?thesis by simp
    next
      case (Cons d ds)
      show ?thesis
      proof (cases "d = CHR 0x7B")
        case True
        from 2(5) open_brace Cons True obtain t where t: "format_from kw None ds = Inr t"
          and o: "out = [c] @ t" by (auto simp: prepend_eq_Inr)
        from 2(1)[OF open_brace Cons True t] open_brace Cons True o show ?thesis
          by (simp add: prepend_prepend)
      next
        case False
        from 2(5) open_brace Cons False have "format_from kw (Some []) cs = Inr out" by simp
        from 2(2)[OF open_brace Cons False this] open_brace Cons False show ?thesis by simp
      qed
    qed
  next
    case not_open: False
    show ?thesis
    proof (cases "c = CHR 0x7D")
      case True
      show ?thesis
      proof (cases cs)
        case Nil
        with 2(5) not_open True show ?thesis by simp
      next
        case (Cons d ds)
        show ?thesis
        proof (cases "d = CHR 0x7D")
          case dd: True
          from 2(5) not_open True Cons dd obtain t where t: "format_from kw None ds = Inr t"
            and o: "out = [c] @ t" by (auto simp: prepend_eq_Inr)
          from 2(3)[OF not_open True Cons dd t] not_open True Cons dd o show ?thesis
            by (simp add: prepend_prepend)
        next
          case False
          with 2(5) not_open True Cons show ?thesis by simp
        qed
      qed
    next
      case False
      from 2(5) not_open False obtain t where t: "format_from kw None cs = Inr t"
        and o: "out = [c] @ t" by (auto simp: prepend_eq_Inr)
      from 2(4)[OF not_open False t] not_open False o show ?thesis
        by (simp add: prepend_prepend)
    qed
  qed
next
  case (3 kw name)
  then show ?case by simp
next
  case (4 kw name c cs)
  show ?case
  proof (cases "c = CHR 0x7B")
    case True
    with 4(3) show ?thesis by simp
  next
    case nb: False
    show ?thesis
    proof (cases "c = CHR 0x7D")
      case True
      from 4(3) nb True obtain v t where v: "field_value kw name = Inr v"
        and t: "format_from kw None cs = Inr t" and o: "out = v @ t"
        by (auto simp: prepend_eq_Inr split: sum.splits)
      from 4(1)[OF nb True v t] nb True v o show ?thesis
        by (simp add: prepend_prepend)
    next
      case False
      show ?thesis
      proof (cases "c \<in> set ''!:.[''")
        case True
        with 4(3) nb False show ?thesis by simp
      next
        case plain: False
        from 4(3) nb False plain have "format_from kw (Some (name @ [c])) cs = Inr out" by simp
        from 4(2)[OF nb False plain this] nb False plain show ?thesis by simp
      qed
    qed
  qed
qed

lemma format_unknown_after_prefix:
  assumes pre: "py_format pre kw = Inr out"
    and name: "\<forall>c\<in>set name. c \<notin> set ''{}!:.[''" "name \<noteq> []" "\<not> list_all is_digit name"
    and unknown: "map_of kw name = None"
  shows "py_format (pre @ ''{'' @ name @ ''}'' @ post) kw = Inl KeyError"
proof -
  have "py_format (''{'' @ name @ ''}'' @ post) kw = Inl KeyError"
    using format_unknown_placeholder[of "[]" name kw post] name unknown by simp
  then show ?thesis
    using format_from_prefix[of kw None pre out "''{'' @ name @ ''}'' @ post"] pre
    by (simp add: py_format_def prepend_def)
qed

lemma in_range_terms_Cons:
  "in_range_terms n (r # rs) =
     (case in_range_terms n [r] of
        Inl e \<Rightarrow> Inl e
      | Inr b \<Rightarrow> if b then Inr True else in_range_terms n rs)"
  by (simp split: list.split sum.split)

lemma in_range_comma:
  "CHR '','' \<notin> set r \<Longrightarrow>
   in_range n (r @ '','' @ others) =
     (case in_range n r of
        Inl e \<Rightarrow> Inl e
      | Inr b \<Rightarrow> if b then Inr True else in_range n others)"
  unfolding in_range_def
  using in_range_terms_Cons[of n r "str_split CHR '','' others"]
  by (simp add: str_split_append str_split_single del: in_range_terms.simps)

lemma in_range_singleton:
  "CHR '','' \<notin> set r \<Longrightarrow> CHR ''-'' \<notin> set r \<Longrightarrow>
   in_range n r = (case py_int r of Inl e \<Rightarrow> Inl e | Inr k \<Rightarrow> Inr (n = k))"
  by (simp add: in_range_def str_split_single split: sum.split)

lemma in_range_interval:
  assumes "CHR '','' \<notin> set lo" "CHR '','' \<notin> set hi" "CHR ''-'' \<notin> set lo" "CHR ''-'' \<notin> set hi"
  shows "in_range n (lo @ ''-'' @ hi) =
     (case py_int lo of
        Inl e \<Rightarrow> Inl e
      | Inr l \<Rightarrow>
          if l \<le> n then (case py_int hi of Inl e \<Rightarrow> Inl e | Inr h \<Rightarrow> Inr (n \<le> h))
          else Inr False)"
proof -
  have 1: "str_split CHR '','' (lo @ CHR ''-'' # hi) = [lo @ CHR ''-'' # hi]"
    using assms(1,2) by (intro str_split_single) simp
  have 2: "str_split CHR ''-'' (lo @ CHR ''-'' # hi) = [lo, hi]"
    using assms(3,4) by (simp add: str_split_append str_split_single)
  have "in_range_terms n [lo @ CHR ''-'' # hi] =
     (case py_int lo of
        Inl e \<Rightarrow> Inl e
      | Inr l \<Rightarrow>
          if l \<le> n then (case py_int hi of Inl e \<Rightarrow> Inl e | Inr h \<Rightarrow> Inr (n \<le> h))
          else Inr False)"
    using 2 by (simp split: sum.split)
  then show ?thesis
    by (simp add: in_range_def 1)
qed

lemma in_range_wrong_arity:
  assumes "CHR '','' \<notin> set r" "CHR ''-'' \<in> set r" "length (str_split CHR ''-'' r) \<noteq> 2"
  shows "in_range n r = Inl ValueError"
proof -
  have "in_range_terms n [r] = Inl ValueError"
    using assms(2,3) by (auto split: list.split)
  then show ?thesis using assms(1) by (simp add: in_range_def str_split_single)
qed

lemma year_excluded_evaluates:
  "years = Some spec \<Longrightarrow> spec \<noteq> [] \<Longrightarrow> py_int y = Inr n \<Longrightarrow>
   year_excluded years (Some y) =
     (case in_range n spec of Inl e \<Rightarrow> Inl e | Inr b \<Rightarrow> Inr (\<not> b))"
  by (simp add: year_excluded_def)

lemma main_error_at_entry:
  assumes f: "fetch_feed w (query_url a w) = Inr root"
    and el: "entry_list root = before @ entry # after"
    and b: "fst (process_entries a w before initial_vars (emit (Urlopen (query_url a w)) s)) = Inr v"
    and e: "fst (process_entry a w entry v
                  (snd (process_entries a w before initial_vars (emit (Urlopen (query_url a w)) s))))
            = Inl e"
  shows "fst (main a w s) = Inl e
       \<and> snd (main a w s) =
           snd (process_entry a w entry v
                  (snd (process_entries a w before initial_vars (emit (Urlopen (query_url a w)) s))))"
proof -
  let ?s1 = "emit (Urlopen (query_url a w)) s"
  obtain t where pb: "process_entries a w before initial_vars ?s1 = (Inr v, t)"
    using b by (cases "process_entries a w before initial_vars ?s1") auto
  obtain t' where pe: "process_entry a w entry v t = (Inl e, t')"
    using e pb by (cases "process_entry a w entry v t") auto
  have "main a w s = process_entries a w (before @ entry # after) initial_vars ?s1"
    using f el by (simp add: main_def Let_def)
  also have "\<dots> = (Inl e, t')"
    using pb pe by (simp add: process_entries_append)
  finally show ?thesis using pb pe by simp
qed

lemma process_entry_raises:
  assumes sc: "scan_children w (children entry) (v, [], []) = Inr (v1, ls, au)"
  shows "year_excluded (publish_years a) (publish_year v1) = Inl e \<Longrightarrow>
           process_entry a w entry v t = (Inl e, t)"
    and "year_excluded (publish_years a) (publish_year v1) = Inr False \<Longrightarrow>
         year_excluded (update_years a) (update_year v1) = Inl e \<Longrightarrow>
           process_entry a w entry v t = (Inl e, t)"
    and "year_excluded (publish_years a) (publish_year v1) = Inr False \<Longrightarrow>
         year_excluded (update_years a) (update_year v1) = Inr False \<Longrightarrow>
         render_slug a (v1\<lparr>entry_index := entry_index v1 + 1\<rparr>) au = Inl e \<Longrightarrow>
           process_entry a w entry v t =
             (Inl e, emit (PrintNumbering (str_nat (entry_index v1 + 1))) t)"
    and "year_excluded (publish_years a) (publish_year v1) = Inr False \<Longrightarrow>
         year_excluded (update_years a) (update_year v1) = Inr False \<Longrightarrow>
         render_slug a (v1\<lparr>entry_index := entry_index v1 + 1\<rparr>) au = Inr slug \<Longrightarrow>
         id_var v1 = Some i \<Longrightarrow> title v1 = Some ti \<Longrightarrow>
         publish_time v1 = Some pt \<Longrightarrow> update_time v1 = Some ut \<Longrightarrow>
         selected a (entry_index v1 + 1) = Inl e \<Longrightarrow>
           process_entry a w entry v t =
             (Inl e, emit (PrintLinks (pdf_links_of ls) (other_links_of ls))
                       (emit (PrintEntry i au ti pt ut slug)
                          (emit (PrintNumbering (str_nat (entry_index v1 + 1))) t)))"
  using sc by (simp_all add: process_entry_def show_entry_def Let_def)

lemma render_slug_unknown_placeholder:
  assumes "output_filename_template a = lit @ ''{'' @ name @ ''}'' @ post"
    and "kw = [(''id'', i), (''auth'', str_join ''-'' (map slugify names)),
               (''title'', slugify ti), (''pub'', p), (''updt'', u)]"
    and "py_format lit kw = Inr out"
    and "\<forall>c\<in>set name. c \<notin> set ''{}!:.[''" and "name \<noteq> []" and "\<not> list_all is_digit name"
    and "name \<notin> set [''id'', ''auth'', ''title'', ''pub'', ''updt'']"
    and "id_var v = Some i" and "title v = Some (Some ti)"
    and "publish_year v = Some p" and "update_year v = Some u"
  shows "render_slug a v (map Some names) = Inl KeyError"
proof -
  have "map_of kw name = None" using assms(2,7) by simp
  from format_unknown_after_prefix[OF assms(3) assms(4) assms(5) assms(6) this, of post]
  have "py_format (output_filename_template a) kw = Inl KeyError"
    by (simp add: assms(1))
  then show ?thesis
    using assms(2,8,9,10,11) by (simp add: render_slug_def slugify_all_Some)
qed

lemma process_entry_skips:
  assumes sc: "scan_children w (children entry) (v, [], []) = Inr (v1, ls, au)"
  shows "year_excluded (publish_years a) (publish_year v1) = Inr True \<Longrightarrow>
           process_entry (a\<lparr>update_years := uy, download_selection := ds,
                             output_filename_template := tpl\<rparr>) w entry v t = (Inr v1, t)"
    and "year_excluded (publish_years a) (publish_year v1) = Inr False \<Longrightarrow>
         year_excluded (update_years a) (update_year v1) = Inr True \<Longrightarrow>
           process_entry (a\<lparr>download_selection := ds, output_filename_template := tpl\<rparr>)
             w entry v t = (Inr v1, t)"
  using sc by (simp_all add: process_entry_def)

text \<open>
  Claim C3, amended. Nothing of the range specifications (publish years, update years,
  download selection) and of the file name template is checked at startup: the query is
  the first action of every run and its URL is the same whatever these four options are,
  so a malformed range or an unknown placeholder never makes the program fail before the
  network call. Such a configuration makes the run fail only later, and only if the
  malformed term or the template is evaluated while an entry of the feed is processed.

  \<^item> A run whose feed has no entry ends without error.

  \<^item> An error raised while an entry is processed is fatal: the run ends with that error
    in the state in which the entry raised it, and the entries after it are not
    processed.

  \<^item> Once the children of an entry have been read, an error of the publish-year filter
    is raised before anything is printed for the entry; the update-year filter is
    evaluated only if the publish-year filter kept the entry; the template is rendered
    only for an entry that both filters kept, after its heading has been printed; the
    download selection is evaluated only after such an entry has been printed. An entry
    that the publish-year filter drops is left without error whatever the update-year
    range, the download selection and the template are, and an entry that the
    update-year filter drops is left without error whatever the download selection and
    the template are.

  \<^item> A year filter with a non-empty range applies \<open>in_range\<close> to the year of the entry;
    the download selection applies \<open>in_range\<close> to the index of the entry when downloading
    is enabled and is not read when it is not.

  \<^item> A range is evaluated term by term from the left, and the terms after the first
    term that contains the number are not read. A term without a hyphen raises what
    \<^verbatim>\<open>int\<close> raises on it; an interval reads its lower bound first and its upper bound
    only if the lower bound is at most the number; a term with a hyphen that does not
    split at its hyphens into two parts raises \<^verbatim>\<open>ValueError\<close>.

  \<^item> A template in which a placeholder that is none of \<^verbatim>\<open>id\<close>, \<^verbatim>\<open>auth\<close>, \<^verbatim>\<open>title\<close>,
    \<^verbatim>\<open>pub\<close>, \<^verbatim>\<open>updt\<close> follows a prefix that can be rendered raises \<^verbatim>\<open>KeyError\<close> when
    it is rendered for an entry.
\<close>

theorem query_precedes_configuration_errors:
  "take (Suc (length (trace s))) (trace (snd (main a w s))) = trace s @ [Urlopen (query_url a w)]
   \<and> query_url (a\<lparr>publish_years := py, update_years := uy, download_selection := ds,
                    output_filename_template := tpl\<rparr>) w = query_url a w
   \<and> (fetch_feed w (query_url a w) = Inr root \<and> entry_list root = [] \<longrightarrow>
        main a w s = (Inr initial_vars, emit (Urlopen (query_url a w)) s))
   \<and> (fetch_feed w (query_url a w) = Inr root \<and> entry_list root = before @ entry # after
        \<and> fst (process_entries a w before initial_vars (emit (Urlopen (query_url a w)) s)) = Inr v
        \<and> fst (process_entry a w entry v
                  (snd (process_entries a w before initial_vars (emit (Urlopen (query_url a w)) s))))
            = Inl e \<longrightarrow>
        fst (main a w s) = Inl e
        \<and> snd (main a w s) =
            snd (process_entry a w entry v
                   (snd (process_entries a w before initial_vars (emit (Urlopen (query_url a w)) s)))))
   \<and> (scan_children w (children entry) (v, [], []) = Inr (v1, ls, au) \<longrightarrow>
        (year_excluded (publish_years a) (publish_year v1) = Inl e \<longrightarrow>
           process_entry a w entry v t = (Inl e, t))
        \<and> (year_excluded (publish_years a) (publish_year v1) = Inr False
           \<and> year_excluded (update_years a) (update_year v1) = Inl e \<longrightarrow>
           process_entry a w entry v t = (Inl e, t))
        \<and> (year_excluded (publish_years a) (publish_year v1) = Inr False
           \<and> year_excluded (update_years a) (update_year v1) = Inr False
           \<and> render_slug a (v1\<lparr>entry_index := entry_index v1 + 1\<rparr>) au = Inl e \<longrightarrow>
           process_entry a w entry v t =
             (Inl e, emit (PrintNumbering (str_nat (entry_index v1 + 1))) t))
        \<and> (year_excluded (publish_years a) (publish_year v1) = Inr False
           \<and> year_excluded (update_years a) (update_year v1) = Inr False
           \<and> render_slug a (v1\<lparr>entry_index := entry_index v1 + 1\<rparr>) au = Inr slug
           \<and> id_var v1 = Some i \<and> title v1 = Some ti
           \<and> publish_time v1 = Some pt \<and> update_time v1 = Some ut
           \<and> selected a (entry_index v1 + 1) = Inl e \<longrightarrow>
           process_entry a w entry v t =
             (Inl e, emit (PrintLinks (pdf_links_of ls) (other_links_of ls))
                       (emit (PrintEntry i au ti pt ut slug)
                          (emit (PrintNumbering (str_nat (entry_index v1 + 1))) t)))))
   \<and> (scan_children w (children entry) (v, [], []) = Inr (v1, ls, au) \<longrightarrow>
        (year_excluded (publish_years a) (publish_year v1) = Inr True \<longrightarrow>
           process_entry (a\<lparr>update_years := uy, download_selection := ds,
                             output_filename_template := tpl\<rparr>) w entry v t = (Inr v1, t))
        \<and> (year_excluded (publish_years a) (publish_year v1) = Inr False
           \<and> year_excluded (update_years a) (update_year v1) = Inr True \<longrightarrow>
           process_entry (a\<lparr>download_selection := ds, output_filename_template := tpl\<rparr>)
             w entry v t = (Inr v1, t)))
   \<and> (years = Some spec \<and> spec \<noteq> [] \<and> py_int y = Inr n \<longrightarrow>
        year_excluded years (Some y) =
          (case in_range n spec of Inl e \<Rightarrow> Inl e | Inr b \<Rightarrow> Inr (\<not> b)))
   \<and> (download a \<and> download_selection a = Some spec \<and> spec \<noteq> [] \<longrightarrow>
        selected a idx = in_range (int idx) spec)
   \<and> (\<not> download a \<longrightarrow> selected a idx = Inr False)
   \<and> (CHR '','' \<notin> set r \<longrightarrow>
        in_range n (r @ '','' @ others) =
          (case in_range n r of
             Inl e \<Rightarrow> Inl e
           | Inr b \<Rightarrow> if b then Inr True else in_range n others))
   \<and> (CHR '','' \<notin> set r \<and> CHR ''-'' \<notin> set r \<longrightarrow>
        in_range n r = (case py_int r of Inl e \<Rightarrow> Inl e | Inr k \<Rightarrow> Inr (n = k)))
   \<and> (CHR '','' \<notin> set lo \<and> CHR '','' \<notin> set hi \<and> CHR ''-'' \<notin> set lo \<and> CHR ''-'' \<notin> set hi \<longrightarrow>
        in_range n (lo @ ''-'' @ hi) =
          (case py_int lo of
             Inl e \<Rightarrow> Inl e
           | Inr l \<Rightarrow>
               if l \<le> n then (case py_int hi of Inl e \<Rightarrow> Inl e | Inr h \<Rightarrow> Inr (n \<le> h))
               else Inr False))
   \<and> (CHR '','' \<notin> set r \<and> CHR ''-'' \<in> set r \<and> length (str_split CHR ''-'' r) \<noteq> 2 \<longrightarrow>
        in_range n r = Inl ValueError)
   \<and> (output_filename_template a = lit @ ''{'' @ name @ ''}'' @ post
        \<and> kw = [(''id'', i'), (''auth'', str_join ''-'' (map slugify names)),
                  (''title'', slugify ti'), (''pub'', p), (''updt'', u)]
        \<and> py_format lit kw = Inr out
        \<and> (\<forall>c\<in>set name. c \<notin> set ''{}!:.['') \<and> name \<noteq> [] \<and> \<not> list_all is_digit name
        \<and> name \<notin> set [''id'', ''auth'', ''title'', ''pub'', ''updt'']
        \<and> id_var v2 = Some i' \<and> title v2 = Some (Some ti')
        \<and> publish_year v2 = Some p \<and> update_year v2 = Some u \<longrightarrow>
        render_slug a v2 (map Some names) = Inl KeyError)"
proof -
  have c1: "take (Suc (length (trace s))) (trace (snd (main a w s))) = trace s @ [Urlopen (query_url a w)]"
  proof (cases "fetch_feed w (query_url a w)")
    case (Inl e)
    then show ?thesis by (simp add: main_def Let_def)
  next
    case (Inr root)
    from process_entries_trace[of a w "entry_list root" initial_vars "emit (Urlopen (query_url a w)) s"]
    obtain new where "trace (snd (process_entries a w (entry_list root) initial_vars
                        (emit (Urlopen (query_url a w)) s)))
                      = (trace s @ [Urlopen (query_url a w)]) @ new"
      by auto
    with Inr show ?thesis by (simp add: main_def Let_def)
  qed
  have c2: "query_url (a\<lparr>publish_years := py, update_years := uy, download_selection := ds,
                    output_filename_template := tpl\<rparr>) w = query_url a w"
    by (simp add: query_url_def)
  have c3: "fetch_feed w (query_url a w) = Inr root \<and> entry_list root = [] \<longrightarrow>
        main a w s = (Inr initial_vars, emit (Urlopen (query_url a w)) s)"
    by (simp add: main_def Let_def)
  note c4 = main_error_at_entry[where w = w and a = a and root = root and before = before and entry = entry and after = after and s = s and v = v and e = e]
  note c5 = process_entry_raises[where w = w and entry = entry and v = v and ?v1.0 = v1 and ls = ls and au = au and a = a and e = e and t = t]
  note sk = process_entry_skips[where w = w and entry = entry and v = v and ?v1.0 = v1 and ls = ls
      and au = au and a = a and ds = ds and tpl = tpl and t = t]
  note c6 = year_excluded_evaluates[where years = years and spec = spec and y = y and n = n]
  have c7: "download a \<and> download_selection a = Some spec \<and> spec \<noteq> [] \<longrightarrow>
        selected a idx = in_range (int idx) spec"
    by (simp add: selected_def)
  have c8: "\<not> download a \<longrightarrow> selected a idx = Inr False"
    by (simp add: selected_def)
  note r1 = in_range_comma[where r = r and n = n and others = others]
  note r2 = in_range_singleton[where r = r and n = n]
  note r3 = in_range_interval[where lo = lo and hi = hi and n = n]
  note r4 = in_range_wrong_arity[where r = r and n = n]
  note tp = render_slug_unknown_placeholder[where a = a and lit = lit and name = name and post = post and kw = kw and i = i' and names = names and ti = ti' and p = p and u = u and out = out and v = v2]
  show ?thesis
    apply (intro conjI impI)
    subgoal by (rule c1)
    subgoal by (rule c2)
    subgoal using c3 by blast
    subgoal using c4 by blast
    subgoal using c4 by blast
    subgoal using c5(1) by blast
    subgoal using c5(2) by blast
    subgoal using c5(3) by blast
    subgoal using c5(4)[where slug = slug and i = i and ti = ti and pt = pt and ut = ut] by blast
    subgoal using sk(1)[where uy = uy] by blast
    subgoal using sk(2) by blast
    subgoal using c6 by blast
    subgoal using c7 by blast
    subgoal using c8 by blast
    subgoal using r1 by blast
    subgoal using r2 by blast
    subgoal using r3 by blast
    subgoal using r4 by blast
    subgoal using tp by blast
    done
qed

theorem query_precedes_configuration_errors_witness:
  "fst (main (ex_args\<lparr>publish_years := Some ''2019,x''\<rparr>) (ex_world_http ex_feed5) ex_state0)
     = Inl ValueError
   \<and> trace (snd (main (ex_args\<lparr>publish_years := Some ''2019,x''\<rparr>) (ex_world_http ex_feed5) ex_state0))
     = [Urlopen (query_url ex_args (ex_world_http ex_feed5)), PrintNumbering ''1'',
        PrintEntry ''1901.00001'' [Some ''Art I. Ficial''] (Some ''One'')
          ''2019-09-12T17:00:00Z'' ''2019-09-12T17:00:00Z'' ''2019-Art_I_Ficial-One-1901.00001'',
        PrintLinks [''http://arxiv.org/pdf/1901.00001''] []]
   \<and> main (ex_args\<lparr>publish_years := Some ''20x9''\<rparr>) (ex_world_http ex_feed_empty) ex_state0
     = (Inr initial_vars,
        emit (Urlopen (query_url (ex_args\<lparr>publish_years := Some ''20x9''\<rparr>)
                (ex_world_http ex_feed_empty))) ex_state0)
   \<and> query_url (ex_args\<lparr>publish_years := Some ''20x9'', update_years := Some ''1-2-3'',
                         download_selection := Some ''x'', output_filename_template := ''{year}''\<rparr>)
        (ex_world_http ex_feed5)
     = query_url ex_args (ex_world_http ex_feed5)
   \<and> process_entry (ex_args\<lparr>update_years := Some ''x''\<rparr>) (ex_world_http ex_feed5)
        (ex_entry ''2002.00002'' ''2020'' ''Two'') initial_vars ex_state0
     = (Inl ValueError, ex_state0)
   \<and> process_entry (ex_args\<lparr>output_filename_template := ''{pub}-{year}''\<rparr>) (ex_world_http ex_feed5)
        (ex_entry ''2002.00002'' ''2020'' ''Two'') initial_vars ex_state0
     = (Inl KeyError, emit (PrintNumbering ''1'') ex_state0)
   \<and> process_entry (ex_args\<lparr>download := True, download_selection := Some ''x''\<rparr>)
        (ex_world_http ex_feed5) (ex_entry ''2002.00002'' ''2020'' ''Two'') initial_vars ex_state0
     = (Inl ValueError,
        emit (PrintLinks [''http://arxiv.org/pdf/2002.00002''] [])
          (emit (PrintEntry ''2002.00002'' [Some ''Art I. Ficial''] (Some ''Two'')
                   ''2020-09-12T17:00:00Z'' ''2020-09-12T17:00:00Z''
                   ''2020-Art_I_Ficial-Two-2002.00002'')
             (emit (PrintNumbering ''1'') ex_state0)))
   \<and> process_entry (ex_args\<lparr>publish_years := Some ''1999'', update_years := Some ''x'',
                             download_selection := Some ''x'', output_filename_template := ''{year}''\<rparr>)
        (ex_world_http ex_feed5) (ex_entry ''2002.00002'' ''2020'' ''Two'') initial_vars ex_state0
     = (Inr \<lparr>entry_index = 0, id_var = Some ''2002.00002'', title = Some (Some ''Two''),
                publish_time = Some ''2020-09-12T17:00:00Z'', publish_year = Some ''2020'',
                update_time = Some ''2020-09-12T17:00:00Z'', update_year = Some ''2020''\<rparr>, ex_state0)
   \<and> process_entry (ex_args\<lparr>update_years := Some ''1999'', download_selection := Some ''x'',
                             output_filename_template := ''{year}''\<rparr>)
        (ex_world_http ex_feed5) (ex_entry ''2002.00002'' ''2020'' ''Two'') initial_vars ex_state0
     = (Inr \<lparr>entry_index = 0, id_var = Some ''2002.00002'', title = Some (Some ''Two''),
                publish_time = Some ''2020-09-12T17:00:00Z'', publish_year = Some ''2020'',
                update_time = Some ''2020-09-12T17:00:00Z'', update_year = Some ''2020''\<rparr>, ex_state0)
   \<and> year_excluded (Some ''2019,x'') (Some ''2020'') = Inl ValueError
   \<and> year_excluded (Some ''2019,x'') (Some ''2019'') = Inr False
   \<and> selected (ex_args\<lparr>download := True, download_selection := Some ''x''\<rparr>) 1 = Inl ValueError
   \<and> selected (ex_args\<lparr>download_selection := Some ''x''\<rparr>) 1 = Inr False
   \<and> in_range 2020 ''2019,x'' = Inl ValueError
   \<and> in_range 2019 ''2019,x'' = Inr True
   \<and> in_range 2019 ''3000-x'' = Inr False
   \<and> in_range 3000 ''3000-x'' = Inl ValueError
   \<and> in_range 1 ''1-2-3'' = Inl ValueError
   \<and> render_slug (ex_args\<lparr>output_filename_template := ''{pub}-{year}''\<rparr>)
        \<lparr>entry_index = 1, id_var = Some ''2002.00002'', title = Some (Some ''Two''),
            publish_time = Some ''2020-09-12T17:00:00Z'', publish_year = Some ''2020'',
            update_time = Some ''2020-09-12T17:00:00Z'', update_year = Some ''2020''\<rparr> [Some ''Art I. Ficial''] = Inl KeyError"
proof -
  define W where "W = ex_world_http ex_feed5"
  define W0 where "W0 = ex_world_http ex_feed_empty"
  define E1 where "E1 = ex_entry ''1901.00001'' ''2019'' ''One''"
  define E2 where "E2 = ex_entry ''2002.00002'' ''2020'' ''Two''"
  define R where "R = [ex_entry ''2103.00003'' ''2021'' ''Three'', ex_entry ''2204.00004'' ''2022'' ''Four'',
                       ex_entry ''2305.00005'' ''2023'' ''Five'']"
  define U1 where "U1 = \<lparr>entry_index = 1, id_var = Some ''1901.00001'', title = Some (Some ''One''),
            publish_time = Some ''2019-09-12T17:00:00Z'', publish_year = Some ''2019'',
            update_time = Some ''2019-09-12T17:00:00Z'', update_year = Some ''2019''\<rparr>"
  define V2 where "V2 = \<lparr>entry_index = 0, id_var = Some ''2002.00002'', title = Some (Some ''Two''),
            publish_time = Some ''2020-09-12T17:00:00Z'', publish_year = Some ''2020'',
            update_time = Some ''2020-09-12T17:00:00Z'', update_year = Some ''2020''\<rparr>"
  define V2b where "V2b = \<lparr>entry_index = 1, id_var = Some ''2002.00002'', title = Some (Some ''Two''),
            publish_time = Some ''2020-09-12T17:00:00Z'', publish_year = Some ''2020'',
            update_time = Some ''2020-09-12T17:00:00Z'', update_year = Some ''2020''\<rparr>"
  define L2 where "L2 = [pdf_link ''http://arxiv.org/pdf/2002.00002'']"
  define AU where "AU = [Some ''Art I. Ficial'']"
  define A0 where "A0 = ex_args\<lparr>publish_years := Some ''20x9''\<rparr>"
  define A1 where "A1 = ex_args\<lparr>publish_years := Some ''2019,x''\<rparr>"
  define A2 where "A2 = ex_args\<lparr>update_years := Some ''x''\<rparr>"
  define A3 where "A3 = ex_args\<lparr>output_filename_template := ''{pub}-{year}''\<rparr>"
  define A4 where "A4 = ex_args\<lparr>download := True, download_selection := Some ''x''\<rparr>"
  define A5 where "A5 = ex_args\<lparr>publish_years := Some ''1999''\<rparr>"
  define A6 where "A6 = ex_args\<lparr>update_years := Some ''1999''\<rparr>"
  define A7 where "A7 = ex_args\<lparr>download_selection := Some ''x''\<rparr>"
  define T1 where "T1 = snd (process_entries A1 W [E1] initial_vars
                               (emit (Urlopen (query_url A1 W)) ex_state0))"
  define KW where "KW = [(''id'', ''2002.00002''), (''auth'', str_join ''-'' (map slugify [''Art I. Ficial''])),
                         (''title'', slugify ''Two''), (''pub'', ''2020''), (''updt'', ''2020'')]"

  txt \<open>Ranges.\<close>
  have i_x: "py_int ''x'' = Inl ValueError" by code_simp
  have i_1999: "py_int ''1999'' = Inr 1999" by code_simp
  have i_2019: "py_int ''2019'' = Inr 2019" by code_simp
  have i_2020: "py_int ''2020'' = Inr 2020" by code_simp
  have i_3000: "py_int ''3000'' = Inr 3000" by code_simp
  have r_x: "in_range n ''x'' = Inl ValueError" for n
    using query_precedes_configuration_errors[where r = "''x''" and n = n,
      THEN conjunct2, THEN conjunct2, THEN conjunct2, THEN conjunct2, THEN conjunct2, THEN conjunct2, THEN conjunct2, THEN conjunct2, THEN conjunct2, THEN conjunct2, THEN conjunct1] i_x by simp
  have r_2019: "in_range n ''2019'' = Inr (n = 2019)" for n
    using query_precedes_configuration_errors[where r = "''2019''" and n = n,
      THEN conjunct2, THEN conjunct2, THEN conjunct2, THEN conjunct2, THEN conjunct2, THEN conjunct2, THEN conjunct2, THEN conjunct2, THEN conjunct2, THEN conjunct2, THEN conjunct1] i_2019 by simp
  have r_1999: "in_range n ''1999'' = Inr (n = 1999)" for n
    using query_precedes_configuration_errors[where r = "''1999''" and n = n,
      THEN conjunct2, THEN conjunct2, THEN conjunct2, THEN conjunct2, THEN conjunct2, THEN conjunct2, THEN conjunct2, THEN conjunct2, THEN conjunct2, THEN conjunct2, THEN conjunct1] i_1999 by simp
  have g1: "in_range 2020 ''2019,x'' = Inl ValueError"
    using query_precedes_configuration_errors[where r = "''2019''" and others = "''x''" and n = 2020,
      THEN conjunct2, THEN conjunct2, THEN conjunct2, THEN conjunct2, THEN conjunct2, THEN conjunct2, THEN conjunct2, THEN conjunct2, THEN conjunct2, THEN conjunct1] r_2019[of 2020] r_x[of 2020]
    by simp
  have g2: "in_range 2019 ''2019,x'' = Inr True"
    using query_precedes_configuration_errors[where r = "''2019''" and others = "''x''" and n = 2019,
      THEN conjunct2, THEN conjunct2, THEN conjunct2, THEN conjunct2, THEN conjunct2, THEN conjunct2, THEN conjunct2, THEN conjunct2, THEN conjunct2, THEN conjunct1] r_2019[of 2019]
    by simp
  have g3: "in_range 2019 ''3000-x'' = Inr False"
    using query_precedes_configuration_errors[where lo = "''3000''" and hi = "''x''" and n = 2019,
      THEN conjunct2, THEN conjunct2, THEN conjunct2, THEN conjunct2, THEN conjunct2, THEN conjunct2, THEN conjunct2, THEN conjunct2, THEN conjunct2, THEN conjunct2, THEN conjunct2, THEN conjunct1] i_3000 by simp
  have g4: "in_range 3000 ''3000-x'' = Inl ValueError"
    using query_precedes_configuration_errors[where lo = "''3000''" and hi = "''x''" and n = 3000,
      THEN conjunct2, THEN conjunct2, THEN conjunct2, THEN conjunct2, THEN conjunct2, THEN conjunct2, THEN conjunct2, THEN conjunct2, THEN conjunct2, THEN conjunct2, THEN conjunct2, THEN conjunct1] i_3000 i_x by simp
  have sp: "str_split CHR ''-'' ''1-2-3'' = [''1'', ''2'', ''3'']" by code_simp
  have g5: "in_range 1 ''1-2-3'' = Inl ValueError"
    using query_precedes_configuration_errors[where r = "''1-2-3''" and n = 1,
      THEN conjunct2, THEN conjunct2, THEN conjunct2, THEN conjunct2, THEN conjunct2, THEN conjunct2, THEN conjunct2, THEN conjunct2, THEN conjunct2, THEN conjunct2, THEN conjunct2, THEN conjunct2, THEN conjunct1] sp by simp

  txt \<open>The year filters and the download selection.\<close>
  have y1: "year_excluded (Some ''2019,x'') (Some ''2020'') = Inl ValueError"
    using query_precedes_configuration_errors[where years = "Some ''2019,x''" and spec = "''2019,x''" and y = "''2020''" and n = 2020,
      THEN conjunct2, THEN conjunct2, THEN conjunct2, THEN conjunct2, THEN conjunct2, THEN conjunct2, THEN conjunct1]
      i_2020 g1 by simp
  have y2: "year_excluded (Some ''2019,x'') (Some ''2019'') = Inr False"
    using query_precedes_configuration_errors[where years = "Some ''2019,x''" and spec = "''2019,x''" and y = "''2019''" and n = 2019,
      THEN conjunct2, THEN conjunct2, THEN conjunct2, THEN conjunct2, THEN conjunct2, THEN conjunct2, THEN conjunct1]
      i_2019 g2 by simp
  have y3: "year_excluded (Some ''x'') (Some ''2020'') = Inl ValueError"
    using query_precedes_configuration_errors[where years = "Some ''x''" and spec = "''x''" and y = "''2020''" and n = 2020,
      THEN conjunct2, THEN conjunct2, THEN conjunct2, THEN conjunct2, THEN conjunct2, THEN conjunct2, THEN conjunct1]
      i_2020 r_x[of 2020] by simp
  have y4: "year_excluded (Some ''1999'') (Some ''2020'') = Inr True"
    using query_precedes_configuration_errors[where years = "Some ''1999''" and spec = "''1999''" and y = "''2020''" and n = 2020,
      THEN conjunct2, THEN conjunct2, THEN conjunct2, THEN conjunct2, THEN conjunct2, THEN conjunct2, THEN conjunct1]
      i_2020 r_1999[of 2020] by simp
  have y0: "year_excluded None y = Inr False" for y
    by (simp add: year_excluded_def)
  have d4: "download A4" "download_selection A4 = Some ''x''"
    by (simp_all add: A4_def)
  have s4: "selected A4 k = Inl ValueError" for k
    using query_precedes_configuration_errors[where a = A4 and spec = "''x''" and idx = k,
      THEN conjunct2, THEN conjunct2, THEN conjunct2, THEN conjunct2, THEN conjunct2, THEN conjunct2, THEN conjunct2, THEN conjunct1] d4 r_x[of "int k"] by simp
  have d7: "\<not> download A7"
    by (simp add: A7_def ex_args_def)
  have s7: "selected A7 1 = Inr False"
    using query_precedes_configuration_errors[where a = A7 and idx = 1,
      THEN conjunct2, THEN conjunct2, THEN conjunct2, THEN conjunct2, THEN conjunct2, THEN conjunct2, THEN conjunct2, THEN conjunct2, THEN conjunct1] d7 by blast

  txt \<open>The second entry of the feed, read after the first and read alone.\<close>
  have scb: "scan_children W (children E2) (U1, [], []) = Inr (V2b, L2, AU)"
    unfolding W_def E2_def U1_def V2b_def L2_def AU_def by code_simp
  have sc: "scan_children W (children E2) (initial_vars, [], []) = Inr (V2, L2, AU)"
    unfolding W_def E2_def V2_def L2_def AU_def by code_simp
  have v2: "publish_year V2 = Some ''2020''" "update_year V2 = Some ''2020''"
    "id_var V2 = Some ''2002.00002''" "title V2 = Some (Some ''Two'')"
    "publish_time V2 = Some ''2020-09-12T17:00:00Z''" "update_time V2 = Some ''2020-09-12T17:00:00Z''"
    by (simp_all add: V2_def)
  have v2i: "entry_index V2 + 1 = 1"
    by (simp add: V2_def)
  have v2u: "V2\<lparr>entry_index := entry_index V2 + 1\<rparr> = V2b"
    by (simp add: V2_def V2b_def)
  have v2b: "publish_year V2b = Some ''2020''" "update_year V2b = Some ''2020''"
    "id_var V2b = Some ''2002.00002''" "title V2b = Some (Some ''Two'')"
    by (simp_all add: V2b_def)
  have one: "str_nat 1 = ''1''" by code_simp
  have links: "pdf_links_of L2 = [''http://arxiv.org/pdf/2002.00002'']" "other_links_of L2 = []"
    unfolding L2_def by code_simp+

  txt \<open>A malformed second term of the publish-year range: the first entry is shown, the
    error is raised for the second entry and ends the run.\<close>
  have f: "fetch_feed W (query_url A1 W) = Inr ex_feed5"
    by (simp add: W_def ex_world_http_def)
  have el: "entry_list ex_feed5 = [E1] @ E2 # R"
    unfolding E1_def E2_def R_def by code_simp
  have b: "fst (process_entries A1 W [E1] initial_vars (emit (Urlopen (query_url A1 W)) ex_state0))
             = Inr U1"
    unfolding A1_def W_def E1_def U1_def by code_simp
  have t1: "trace T1
     = [Urlopen (query_url ex_args (ex_world_http ex_feed5)), PrintNumbering ''1'',
        PrintEntry ''1901.00001'' [Some ''Art I. Ficial''] (Some ''One'')
          ''2019-09-12T17:00:00Z'' ''2019-09-12T17:00:00Z'' ''2019-Art_I_Ficial-One-1901.00001'',
        PrintLinks [''http://arxiv.org/pdf/1901.00001''] []]"
    unfolding T1_def A1_def W_def E1_def by code_simp
  have p1: "publish_years A1 = Some ''2019,x''" by (simp add: A1_def)
  have ye: "year_excluded (publish_years A1) (publish_year V2b) = Inl ValueError"
    by (simp only: p1 v2b y1)
  from query_precedes_configuration_errors[where w = W and entry = E2 and v = U1 and ?v1.0 = V2b and ls = L2 and au = AU
      and a = A1 and e = ValueError and t = T1,
      THEN conjunct2, THEN conjunct2, THEN conjunct2, THEN conjunct2, THEN conjunct1] scb ye
  have pe: "process_entry A1 W E2 U1 T1 = (Inl ValueError, T1)"
    by blast
  then have pe1: "fst (process_entry A1 W E2 U1 T1) = Inl ValueError"
    by (simp only: fst_conv)
  from query_precedes_configuration_errors[where a = A1 and w = W and s = ex_state0 and root = ex_feed5 and before = "[E1]"
      and entry = E2 and after = R and v = U1 and e = ValueError,
      THEN conjunct2, THEN conjunct2, THEN conjunct2, THEN conjunct1, folded T1_def] f el b pe1
  have m: "fst (main A1 W ex_state0) = Inl ValueError
         \<and> snd (main A1 W ex_state0) = snd (process_entry A1 W E2 U1 T1)"
    by blast
  then have m2: "trace (snd (main A1 W ex_state0)) = trace T1"
    by (simp only: pe snd_conv)
  note m1 = m[THEN conjunct1]

  txt \<open>A feed without entries.\<close>
  have f0: "fetch_feed W0 (query_url A0 W0) = Inr ex_feed_empty"
    by (simp add: W0_def ex_world_http_def)
  have el0: "entry_list ex_feed_empty = []"
    by (simp add: entry_list_def ex_feed_empty_def)
  from query_precedes_configuration_errors[where a = A0 and w = W0 and s = ex_state0 and root = ex_feed_empty,
      THEN conjunct2, THEN conjunct2, THEN conjunct1] f0 el0
  have m0: "main A0 W0 ex_state0 = (Inr initial_vars, emit (Urlopen (query_url A0 W0)) ex_state0)"
    by blast
  have q: "query_url (ex_args\<lparr>publish_years := Some ''20x9'', update_years := Some ''1-2-3'',
                         download_selection := Some ''x'', output_filename_template := ''{year}''\<rparr>) W
            = query_url ex_args W"
    by (rule query_precedes_configuration_errors[THEN conjunct2, THEN conjunct1])

  txt \<open>A malformed update-year range.\<close>
  have a2: "publish_years A2 = None" "update_years A2 = Some ''x''"
    by (simp_all add: A2_def ex_args_def)
  have h2: "year_excluded (publish_years A2) (publish_year V2) = Inr False"
    "year_excluded (update_years A2) (update_year V2) = Inl ValueError"
    by (simp_all only: a2 v2 y0 y3)
  from query_precedes_configuration_errors[where w = W and entry = E2 and v = initial_vars and ?v1.0 = V2 and ls = L2 and au = AU
      and a = A2 and e = ValueError and t = ex_state0,
      THEN conjunct2, THEN conjunct2, THEN conjunct2, THEN conjunct2, THEN conjunct1] sc h2
  have e2: "process_entry A2 W E2 initial_vars ex_state0 = (Inl ValueError, ex_state0)"
    by blast

  txt \<open>An unknown placeholder after a known one.\<close>
  have a3: "publish_years A3 = None" "update_years A3 = None"
    "output_filename_template A3 = ''{pub}-'' @ ''{'' @ ''year'' @ ''}'' @ []"
    by (simp_all add: A3_def ex_args_def)
  have h3: "year_excluded (publish_years A3) (publish_year V2) = Inr False"
    "year_excluded (update_years A3) (update_year V2) = Inr False"
    by (simp_all only: a3 y0)
  have lit: "py_format ''{pub}-'' KW = Inr ''2020-''"
    unfolding KW_def by code_simp
  have nm: "\<forall>c\<in>set ''year''. c \<notin> set ''{}!:.[''" "''year'' \<noteq> []" "\<not> list_all is_digit ''year''"
    "''year'' \<notin> set [''id'', ''auth'', ''title'', ''pub'', ''updt'']"
    by (simp_all add: is_digit_def)
  from query_precedes_configuration_errors[where a = A3 and lit = "''{pub}-''" and name = "''year''" and post = "[]" and kw = KW
      and i' = "''2002.00002''" and names = "[''Art I. Ficial'']" and ti' = "''Two''"
      and p = "''2020''" and u = "''2020''" and out = "''2020-''" and ?v2.0 = V2b,
      THEN conjunct2, THEN conjunct2, THEN conjunct2, THEN conjunct2, THEN conjunct2, THEN conjunct2, THEN conjunct2, THEN conjunct2, THEN conjunct2, THEN conjunct2, THEN conjunct2, THEN conjunct2, THEN conjunct2]
    a3(3) KW_def lit nm v2b
  have "render_slug A3 V2b (map Some [''Art I. Ficial'']) = Inl KeyError"
    by blast
  then have k3: "render_slug A3 V2b AU = Inl KeyError"
    by (simp add: AU_def)
  then have k3': "render_slug A3 (V2\<lparr>entry_index := entry_index V2 + 1\<rparr>) AU = Inl KeyError"
    by (simp only: v2u)
  from query_precedes_configuration_errors[where w = W and entry = E2 and v = initial_vars and ?v1.0 = V2 and ls = L2 and au = AU
      and a = A3 and e = KeyError and t = ex_state0,
      THEN conjunct2, THEN conjunct2, THEN conjunct2, THEN conjunct2, THEN conjunct1] sc h3 k3'
  have "process_entry A3 W E2 initial_vars ex_state0
          = (Inl KeyError, emit (PrintNumbering (str_nat (entry_index V2 + 1))) ex_state0)"
    by blast
  then have e3: "process_entry A3 W E2 initial_vars ex_state0
          = (Inl KeyError, emit (PrintNumbering ''1'') ex_state0)"
    by (simp only: v2i one)

  txt \<open>A malformed download selection, with downloading enabled.\<close>
  have a4: "publish_years A4 = None" "update_years A4 = None"
    by (simp_all add: A4_def ex_args_def)
  have h4: "year_excluded (publish_years A4) (publish_year V2) = Inr False"
    "year_excluded (update_years A4) (update_year V2) = Inr False"
    by (simp_all only: a4 y0)
  have sl: "render_slug A4 V2b AU = Inr ''2020-Art_I_Ficial-Two-2002.00002''"
    unfolding A4_def V2b_def AU_def by code_simp
  then have sl': "render_slug A4 (V2\<lparr>entry_index := entry_index V2 + 1\<rparr>) AU
                    = Inr ''2020-Art_I_Ficial-Two-2002.00002''"
    by (simp only: v2u)
  from query_precedes_configuration_errors[where w = W and entry = E2 and v = initial_vars and ?v1.0 = V2 and ls = L2 and au = AU
      and a = A4 and e = ValueError and t = ex_state0
      and slug = "''2020-Art_I_Ficial-Two-2002.00002''" and i = "''2002.00002''"
      and ti = "Some ''Two''" and pt = "''2020-09-12T17:00:00Z''" and ut = "''2020-09-12T17:00:00Z''",
      THEN conjunct2, THEN conjunct2, THEN conjunct2, THEN conjunct2, THEN conjunct1]
    sc h4 sl' v2(3,4,5,6) s4[of "entry_index V2 + 1"]
  have "process_entry A4 W E2 initial_vars ex_state0
          = (Inl ValueError,
             emit (PrintLinks (pdf_links_of L2) (other_links_of L2))
               (emit (PrintEntry ''2002.00002'' AU (Some ''Two'')
                        ''2020-09-12T17:00:00Z'' ''2020-09-12T17:00:00Z''
                        ''2020-Art_I_Ficial-Two-2002.00002'')
                  (emit (PrintNumbering (str_nat (entry_index V2 + 1))) ex_state0)))"
    by blast
  then have e4: "process_entry A4 W E2 initial_vars ex_state0
          = (Inl ValueError,
             emit (PrintLinks [''http://arxiv.org/pdf/2002.00002''] [])
               (emit (PrintEntry ''2002.00002'' AU (Some ''Two'')
                        ''2020-09-12T17:00:00Z'' ''2020-09-12T17:00:00Z''
                        ''2020-Art_I_Ficial-Two-2002.00002'')
                  (emit (PrintNumbering ''1'') ex_state0)))"
    by (simp only: v2i one links)

  txt \<open>An entry that a year filter drops: what is malformed after the filter is not read.\<close>
  have a5: "publish_years A5 = Some ''1999''"
    by (simp add: A5_def)
  have h5: "year_excluded (publish_years A5) (publish_year V2) = Inr True"
    by (simp only: a5 v2 y4)
  from query_precedes_configuration_errors[where w = W and entry = E2 and v = initial_vars and ?v1.0 = V2 and ls = L2 and au = AU
      and a = A5 and uy = "Some ''x''" and ds = "Some ''x''" and tpl = "''{year}''" and t = ex_state0,
      THEN conjunct2, THEN conjunct2, THEN conjunct2, THEN conjunct2, THEN conjunct2, THEN conjunct1]
    sc h5
  have e5: "process_entry (A5\<lparr>update_years := Some ''x'', download_selection := Some ''x'',
                               output_filename_template := ''{year}''\<rparr>) W E2 initial_vars ex_state0
          = (Inr V2, ex_state0)"
    by blast
  have a6: "publish_years A6 = None" "update_years A6 = Some ''1999''"
    by (simp_all add: A6_def ex_args_def)
  have h6: "year_excluded (publish_years A6) (publish_year V2) = Inr False"
    "year_excluded (update_years A6) (update_year V2) = Inr True"
    by (simp_all only: a6 v2 y0 y4)
  from query_precedes_configuration_errors[where w = W and entry = E2 and v = initial_vars and ?v1.0 = V2 and ls = L2 and au = AU
      and a = A6 and uy = "Some ''x''" and ds = "Some ''x''" and tpl = "''{year}''" and t = ex_state0,
      THEN conjunct2, THEN conjunct2, THEN conjunct2, THEN conjunct2, THEN conjunct2, THEN conjunct1]
    sc h6
  have e6: "process_entry (A6\<lparr>download_selection := Some ''x'', output_filename_template := ''{year}''\<rparr>)
              W E2 initial_vars ex_state0
          = (Inr V2, ex_state0)"
    by blast
  from m1 m2 t1 m0 q e2 e3 e4 e5 e6 y1 y2 s4[of 1] s7 g1 g2 g3 g4 g5 k3
  show ?thesis
    unfolding W_def W0_def E2_def V2_def V2b_def AU_def A0_def A1_def A2_def A3_def A4_def A5_def A6_def
      A7_def
    by (intro conjI) (assumption | simp only:)+
qed

subsection \<open>Variables that persist across entries\<close>















end
